theory Spec2Isabelle
  imports Complex_Main "HOL-Library.Word"
begin

unbundle bit_operations_syntax

section \<open>Data model\<close>

text \<open>
  The driver \<^verbatim>\<open>elanfp.py\<close> talks to the sensor over USB bulk transfers. Python
  \<^verbatim>\<open>bytes\<close> are lists of 8-bit words; the integers the code computes with
  (\<^verbatim>\<open>resp[1]\<close>, finger ids, pixel values) are Python's unbounded integers, that is
  \<^typ>\<open>int\<close>. Every exception the code can raise is a value of \<open>error\<close>.
\<close>

type_synonym byte = "8 word"
type_synonym bytes = "byte list"

datatype error =
    KeyError
  | IndexError
  | StructError
  | OverflowError
  | ValueError
  | ZeroDivisionError
  | USBErrorTimeout
  | IOError string

text \<open>\<^verbatim>\<open>Command = namedtuple("Command", ("command", "out_len", "in_len", "ep_out", "ep_in"))\<close>;
  the first field is called \<open>opcode\<close> here, \<open>command\<close> being the executor's name.\<close>

record Command =
  opcode :: bytes
  out_len :: nat
  in_len :: nat
  ep_out :: nat
  ep_in :: nat

definition mk_Command :: "bytes \<Rightarrow> nat \<Rightarrow> nat \<Rightarrow> nat \<Rightarrow> nat \<Rightarrow> Command" where
  "mk_Command c ol il eo ei = \<lparr>opcode = c, out_len = ol, in_len = il, ep_out = eo, ep_in = ei\<rparr>"

definition COMMANDS :: "string \<Rightarrow> Command option" where
  "COMMANDS = map_of
     [(''fw_ver'',        mk_Command [0x40, 0x19] 2 2 1 3),
      (''sensor_size'',   mk_Command [0x00, 0x0c] 2 4 1 3),
      (''verify'',        mk_Command [0x40, 0xff, 0x03] 3 2 1 4),
      (''finger_info'',   mk_Command [0x40, 0xff, 0x12] 4 64 1 3),
      (''enrolled_num'',  mk_Command [0x40, 0xff, 0x04] 3 2 1 3),
      (''enrolled_num1'', mk_Command [0x40, 0xff, 0x00] 3 2 1 3),
      (''abort'',         mk_Command [0x40, 0xff, 0x02] 3 2 1 3),
      (''commit'',        mk_Command [0x40, 0xff, 0x11] 72 2 1 3),
      (''enroll'',        mk_Command [0x40, 0xff, 0x01] 7 2 1 4),
      (''after_enroll'',  mk_Command [0x40, 0xff, 0x10] 3 3 1 3),
      (''delete'',        mk_Command [0x40, 0xff, 0x13] 72 2 1 3)]"

definition ERRORS :: "int \<Rightarrow> string option" where
  "ERRORS = map_of
     [(0x41, ''Move slightly downwards''),
      (0x42, ''Move slightly to the right''),
      (0x43, ''Move slightly upwards''),
      (0x44, ''Move slightly to the left''),
      (0xfb, ''Sensor is dirty or wet''),
      (0xfd, ''Finger not enrolled''),
      (0xfe, ''Finger area not enough''),
      (0xdd, ''Maximum number of enrolled fingers reached'')]"

section \<open>Python built-ins used by the driver\<close>

text \<open>\<^verbatim>\<open>hex(n)\<close>: lower-case digits, no leading zeros, a minus sign before \<^verbatim>\<open>0x\<close>.\<close>

definition hexdigit :: "nat \<Rightarrow> char" where
  "hexdigit d = ''0123456789abcdef'' ! d"

function hex_digits :: "nat \<Rightarrow> string" where
  "hex_digits n = (if n < 16 then [hexdigit n] else hex_digits (n div 16) @ [hexdigit (n mod 16)])"
  by pat_completeness auto
termination
  by (relation "measure id") auto

declare hex_digits.simps [simp del]

definition hex :: "int \<Rightarrow> string" where
  "hex i = (if i < 0 then ''-0x'' @ hex_digits (nat (- i)) else ''0x'' @ hex_digits (nat i))"

section \<open>Status interpreter\<close>

text \<open>
  \<^verbatim>\<open>
  def get_error(byte: int) -> Optional[str]:
      if (byte & 0xF0) == 0:
          return None
      if byte not in ERRORS:
          return f"Unknown error {hex(byte)}"
      return ERRORS[byte]
  \<close>
\<close>

definition get_error :: "int \<Rightarrow> string option" where
  "get_error byte =
     (if byte AND 0xF0 = 0 then None
      else (case ERRORS byte of
              None \<Rightarrow> Some (''Unknown error '' @ hex byte)
            | Some d \<Rightarrow> Some d))"


text \<open>\<^verbatim>\<open>if error:\<close> on an \<^verbatim>\<open>Optional[str]\<close>: \<^verbatim>\<open>None\<close> and the empty string are
  false. \<^verbatim>\<open>f"{x}"\<close> of such a value prints \<^verbatim>\<open>None\<close> for \<^verbatim>\<open>None\<close>.\<close>

definition truthy :: "string option \<Rightarrow> bool" where
  "truthy e = (case e of None \<Rightarrow> False | Some s \<Rightarrow> s \<noteq> [])"

definition format_opt :: "string option \<Rightarrow> string" where
  "format_opt e = (case e of None \<Rightarrow> ''None'' | Some s \<Rightarrow> s)"

text \<open>\<^verbatim>\<open>resp[i]\<close> on bytes: an integer in 0..255, negative \<open>i\<close> counted from the end,
  \<^verbatim>\<open>IndexError\<close> outside.\<close>

definition getitem :: "bytes \<Rightarrow> int \<Rightarrow> error + int" where
  "getitem resp i =
     (let k = (if i < 0 then i + int (length resp) else i)
      in if k < 0 \<or> int (length resp) \<le> k then Inl IndexError
         else Inr (uint (resp ! nat k)))"

text \<open>\<^verbatim>\<open>struct.pack("B", x)\<close>, \<^verbatim>\<open>struct.pack("BBBB", a, b, c, d)\<close> and
  \<^verbatim>\<open>x.to_bytes(1, "little")\<close>: each value must fit an unsigned byte.\<close>

definition is_u8 :: "int \<Rightarrow> bool" where
  "is_u8 x = (0 \<le> x \<and> x \<le> 255)"

definition pack_B :: "int \<Rightarrow> error + bytes" where
  "pack_B x = (if is_u8 x then Inr [word_of_int x] else Inl StructError)"

definition pack_BBBB :: "int \<Rightarrow> int \<Rightarrow> int \<Rightarrow> int \<Rightarrow> error + bytes" where
  "pack_BBBB a b c d =
     (if is_u8 a \<and> is_u8 b \<and> is_u8 c \<and> is_u8 d
      then Inr [word_of_int a, word_of_int b, word_of_int c, word_of_int d]
      else Inl StructError)"

definition to_bytes_1 :: "int \<Rightarrow> error + bytes" where
  "to_bytes_1 x = (if is_u8 x then Inr [word_of_int x] else Inl OverflowError)"

text \<open>\<^verbatim>\<open>b.ljust(width, fill)\<close> pads on the right up to \<open>width\<close>; a longer \<open>b\<close> is
  returned unchanged.\<close>

definition ljust :: "nat \<Rightarrow> byte \<Rightarrow> bytes \<Rightarrow> bytes" where
  "ljust width fill b = b @ replicate (width - length b) fill"

section \<open>Transport\<close>

text \<open>
  The USB handle is external. It is modelled by the replies the device will give, in order
  (\<open>script\<close>), and by what the host has done so far (\<open>trace\<close>): bulk writes with endpoint,
  data and timeout, warnings, a device reset and the image saved. A bulk read takes the next
  reply, cut to the length asked for; with no reply left the read times out, which
  \<^verbatim>\<open>usb1\<close> raises as an exception. Writes always succeed. Console output
  (\<^verbatim>\<open>print\<close>, \<^verbatim>\<open>hexdump\<close>) is not part of the model.
\<close>

datatype event =
    Write nat bytes nat
  | WrongCommandSize nat nat
  | ShorterAnswer nat nat
  | ResetDevice
  | SavePNG nat nat "int list"

record usb =
  script :: "bytes list"
  trace :: "event list"

definition emit :: "usb \<Rightarrow> event list \<Rightarrow> usb" where
  "emit u es = u\<lparr>trace := trace u @ es\<rparr>"

definition bulkWrite :: "usb \<Rightarrow> nat \<Rightarrow> bytes \<Rightarrow> nat \<Rightarrow> usb" where
  "bulkWrite u ep data timeout = emit u [Write ep data timeout]"

definition bulkRead :: "usb \<Rightarrow> nat \<Rightarrow> nat \<Rightarrow> nat \<Rightarrow> (error + bytes) \<times> usb" where
  "bulkRead u ep len timeout =
     (case script u of
        [] \<Rightarrow> (Inl USBErrorTimeout, u)
      | r # rs \<Rightarrow> (Inr (take len r), u\<lparr>script := rs\<rparr>))"

section \<open>Command executor\<close>

text \<open>
  \<^verbatim>\<open>
  def command(usb, cmdname, payload=b"", timeout=2000) -> bytes:
      outpayload, outlen, inlen, ep_out, ep_in = COMMANDS[cmdname]
      cmd = outpayload + payload
      if len(cmd) != outlen:
          warnings.warn(f"Wrong command size: {len(cmd)} vs {outlen}")
      usb.bulkWrite(ep_out, cmd, timeout)
      resp = usb.bulkRead(ep_in, inlen, timeout)
      if len(resp) < inlen:
          warnings.warn(f"Device replied with shorter answer: {len(cmd)} vs {inlen}")
      return resp
  \<close>
  The second warning prints \<^verbatim>\<open>len(cmd)\<close>, as the source does.
\<close>

definition command :: "usb \<Rightarrow> string \<Rightarrow> bytes \<Rightarrow> nat \<Rightarrow> (error + bytes) \<times> usb" where
  "command u cmdname payload timeout =
     (case COMMANDS cmdname of
        None \<Rightarrow> (Inl KeyError, u)
      | Some c \<Rightarrow>
          (let cmd = opcode c @ payload;
               u1 = (if length cmd \<noteq> out_len c
                     then emit u [WrongCommandSize (length cmd) (out_len c)] else u);
               u2 = bulkWrite u1 (ep_out c) cmd timeout
           in case bulkRead u2 (ep_in c) (in_len c) timeout of
                (Inl e, u3) \<Rightarrow> (Inl e, u3)
              | (Inr resp, u3) \<Rightarrow>
                  (Inr resp,
                   if length resp < in_len c
                   then emit u3 [ShorterAnswer (length cmd) (in_len c)] else u3)))"

lemma command_consumes:
  "command u cmdname payload timeout = (Inr resp, u') \<Longrightarrow> length (script u') < length (script u)"
  by (auto simp: command_def bulkRead_def bulkWrite_def emit_def Let_def
      split: option.splits list.splits if_splits)

lemma command_keeps:
  "command u cmdname payload timeout = (res, u') \<Longrightarrow> length (script u') \<le> length (script u)"
  by (auto simp: command_def bulkRead_def bulkWrite_def emit_def Let_def
      split: option.splits list.splits if_splits)

section \<open>Verify\<close>

text \<open>
  \<^verbatim>\<open>
  def verify(handle) -> int:
      while True:
          resp = command(handle, "verify", timeout=5000)
          error = get_error(resp[1])
          if error:
              continue
          return resp[1]
  \<close>
  Each round of the loop reads one reply, so the recursion ends with the script.
\<close>

function verify :: "usb \<Rightarrow> (error + int) \<times> usb" where
  "verify handle =
     (case command handle ''verify'' [] 5000 of
        (Inl e, u) \<Rightarrow> (Inl e, u)
      | (Inr resp, u) \<Rightarrow>
          (case getitem resp 1 of
             Inl e \<Rightarrow> (Inl e, u)
           | Inr b \<Rightarrow> if truthy (get_error b) then verify u else (Inr b, u)))"
  by pat_completeness auto
termination
  by (relation "measure (\<lambda>u. length (script u))") (auto dest: command_consumes [OF sym])

declare verify.simps [simp del]

lemma verify_keeps: "verify u = (res, u') \<Longrightarrow> length (script u') \<le> length (script u)"
proof (induction u rule: verify.induct)
  case (1 handle)
  show ?case
  proof (cases "command handle ''verify'' [] 5000")
    case (Pair r u1)
    note c = command_keeps [OF Pair]
    show ?thesis
    proof (cases r)
      case (Inl e)
      with Pair "1.prems" c show ?thesis by (simp add: verify.simps [of handle])
    next
      case (Inr resp)
      show ?thesis
      proof (cases "getitem resp 1")
        case (Inl e)
        with Pair Inr "1.prems" c show ?thesis by (simp add: verify.simps [of handle])
      next
        case b: (Inr b)
        show ?thesis
        proof (cases "truthy (get_error b)")
          case True
          with Pair Inr b "1.prems" have "verify u1 = (res, u')"
            by (simp add: verify.simps [of handle])
          from "1.IH" [OF Pair [symmetric] Inr b True this] c show ?thesis by simp
        next
          case False
          with Pair Inr b "1.prems" c show ?thesis by (simp add: verify.simps [of handle])
        qed
      qed
    qed
  qed
qed

section \<open>Finger info, with the recovery round\<close>

text \<open>
  \<^verbatim>\<open>
  def get_finger_info(handle, finger_id: int) -> bytes:
      while True:
          resp = command(handle, "finger_info", finger_id.to_bytes(1, "little"))
          if resp[1] == 0xff:
              verify(handle)
              continue
          if len(resp) == 2:
              raise IOError(f"Error: {get_error(resp[1])}")
          return resp
  \<close>
\<close>

function get_finger_info :: "usb \<Rightarrow> int \<Rightarrow> (error + bytes) \<times> usb" where
  "get_finger_info handle finger_id =
     (case to_bytes_1 finger_id of
        Inl e \<Rightarrow> (Inl e, handle)
      | Inr idb \<Rightarrow>
          (case command handle ''finger_info'' idb 2000 of
             (Inl e, u) \<Rightarrow> (Inl e, u)
           | (Inr resp, u) \<Rightarrow>
               (case getitem resp 1 of
                  Inl e \<Rightarrow> (Inl e, u)
                | Inr b \<Rightarrow>
                    if b = 0xff
                    then (case verify u of
                            (Inl e, u') \<Rightarrow> (Inl e, u')
                          | (Inr _, u') \<Rightarrow> get_finger_info u' finger_id)
                    else if length resp = 2
                    then (Inl (IOError (''Error: '' @ format_opt (get_error b))), u)
                    else (Inr resp, u))))"
  by pat_completeness auto
termination
proof (relation "measure (\<lambda>(u, i). length (script u))", goal_cases)
  case 1
  show ?case by simp
next
  case (2 handle finger_id idb r u resp b v u' x)
  from 2 have "length (script u) < length (script handle)"
    by (auto dest: command_consumes [OF sym])
  moreover from 2 have "length (script u') \<le> length (script u)"
    by (auto dest: verify_keeps [OF sym])
  ultimately show ?case by simp
qed

declare get_finger_info.simps [simp del]

section \<open>Enroll\<close>

text \<open>
  The payload of \<^verbatim>\<open>commit\<close> and of \<^verbatim>\<open>delete\<close>, written three times in the source:
  \<^verbatim>\<open>(struct.pack("B", 0xf0 | (finger_id + 5)) + data).ljust(69, b"\x00")\<close>.
\<close>

definition padded_payload :: "int \<Rightarrow> bytes \<Rightarrow> error + bytes" where
  "padded_payload finger_id data =
     (case pack_B (0xf0 OR (finger_id + 5)) of
        Inl e \<Rightarrow> Inl e
      | Inr marker \<Rightarrow> Inr (ljust 69 0x00 (marker @ data)))"

text \<open>
  The first loop of \<^verbatim>\<open>enroll\<close>: wait until the sensor answers "not enrolled".
  \<^verbatim>\<open>
      while True:
          resp = command(handle, "verify", timeout=5000)
          error = get_error(resp[1])
          if not error:
              continue
          if resp[1] != 0xfd:
              continue
          break
  \<close>
\<close>

function enroll_precheck :: "usb \<Rightarrow> (error + unit) \<times> usb" where
  "enroll_precheck handle =
     (case command handle ''verify'' [] 5000 of
        (Inl e, u) \<Rightarrow> (Inl e, u)
      | (Inr resp, u) \<Rightarrow>
          (case getitem resp 1 of
             Inl e \<Rightarrow> (Inl e, u)
           | Inr b \<Rightarrow>
               if \<not> truthy (get_error b) then enroll_precheck u
               else if b \<noteq> 0xfd then enroll_precheck u
               else (Inr (), u)))"
  by pat_completeness auto
termination
  by (relation "measure (\<lambda>u. length (script u))") (auto dest: command_consumes [OF sym])

declare enroll_precheck.simps [simp del]

text \<open>
  The sampling loop of \<^verbatim>\<open>enroll\<close>. The result is \<open>True\<close> when the loop ends because
  \<open>attempts_done\<close> reached \<open>total_attempts\<close>, \<open>False\<close> when \<^verbatim>\<open>enroll\<close> returns from
  inside it.
  \<^verbatim>\<open>
      total_attempts = 8
      attempts_done = 0
      while attempts_done < total_attempts:
          payload = struct.pack("BBBB", new_finger_id, total_attempts, attempts_done, 0)
          resp = command(handle, "enroll", payload, timeout=10000)
          error = get_error(resp[1])
          if resp[1] != 0:
              if resp[1] == 0xdd:
                  return  # Max fingers
              continue
          attempts_done += 1
  \<close>
\<close>

function enroll_samples :: "int \<Rightarrow> int \<Rightarrow> int \<Rightarrow> usb \<Rightarrow> (error + bool) \<times> usb" where
  "enroll_samples new_finger_id total_attempts attempts_done handle =
     (if attempts_done < total_attempts
      then (case pack_BBBB new_finger_id total_attempts attempts_done 0 of
              Inl e \<Rightarrow> (Inl e, handle)
            | Inr payload \<Rightarrow>
                (case command handle ''enroll'' payload 10000 of
                   (Inl e, u) \<Rightarrow> (Inl e, u)
                 | (Inr resp, u) \<Rightarrow>
                     (case getitem resp 1 of
                        Inl e \<Rightarrow> (Inl e, u)
                      | Inr b \<Rightarrow>
                          if b \<noteq> 0
                          then (if b = 0xdd then (Inr False, u)
                                else enroll_samples new_finger_id total_attempts attempts_done u)
                          else enroll_samples new_finger_id total_attempts (attempts_done + 1) u)))
      else (Inr True, handle))"
  by pat_completeness auto
termination
  by (relation "measure (\<lambda>(f, t, a, u). length (script u))")
    (auto dest: command_consumes [OF sym])

declare enroll_samples.simps [simp del]

text \<open>
  \<^verbatim>\<open>
  def enroll(handle, user_data: bytes):
      resp = command(handle, "enrolled_num")
      error = get_error(resp[1])
      if error:
          return
      new_finger_id = enrolled = resp[1]
      ... the two loops ...
      resp = command(handle, "after_enroll")
      payload = (struct.pack("B", 0xf0 | (new_finger_id + 5)) + user_data).ljust(69, b"\x00")
      resp = command(handle, "commit", payload)
      if resp[1] == 0: ... else: ...
  \<close>
\<close>

definition enroll :: "usb \<Rightarrow> bytes \<Rightarrow> (error + unit) \<times> usb" where
  "enroll handle user_data =
     (case command handle ''enrolled_num'' [] 2000 of
        (Inl e, u) \<Rightarrow> (Inl e, u)
      | (Inr resp, u) \<Rightarrow>
      (case getitem resp 1 of
         Inl e \<Rightarrow> (Inl e, u)
       | Inr new_finger_id \<Rightarrow>
       if truthy (get_error new_finger_id) then (Inr (), u)
       else
       (case enroll_precheck u of
          (Inl e, u1) \<Rightarrow> (Inl e, u1)
        | (Inr _, u1) \<Rightarrow>
        (case enroll_samples new_finger_id 8 0 u1 of
           (Inl e, u2) \<Rightarrow> (Inl e, u2)
         | (Inr completed, u2) \<Rightarrow>
         if \<not> completed then (Inr (), u2)
         else
         (case command u2 ''after_enroll'' [] 2000 of
            (Inl e, u3) \<Rightarrow> (Inl e, u3)
          | (Inr _, u3) \<Rightarrow>
          (case padded_payload new_finger_id user_data of
             Inl e \<Rightarrow> (Inl e, u3)
           | Inr payload \<Rightarrow>
           (case command u3 ''commit'' payload 2000 of
              (Inl e, u4) \<Rightarrow> (Inl e, u4)
            | (Inr resp', u4) \<Rightarrow>
            (case getitem resp' 1 of
               Inl e \<Rightarrow> (Inl e, u4)
             | Inr _ \<Rightarrow> (Inr (), u4)))))))))"

section \<open>Delete\<close>

text \<open>
  \<^verbatim>\<open>
  def delete(handle, fpid: int, payload: bytes):
      resp = command(handle, "delete", payload)
      error = get_error(resp[1])
      if resp[1] != 0:
          print(f"Error: {error} ({hex(resp[1])})")
      else:
          resp = get_finger_info(handle, fpid)

  def delete_by_id(handle, fpid: int):
      resp = get_finger_info(handle, fpid)
      payload = (struct.pack("B", 0xf0 | (fpid + 5)) + resp[2:]).ljust(69, b"\x00")
      delete(handle, fpid, payload)
  \<close>
\<close>

definition delete :: "usb \<Rightarrow> int \<Rightarrow> bytes \<Rightarrow> (error + unit) \<times> usb" where
  "delete handle fpid payload =
     (case command handle ''delete'' payload 2000 of
        (Inl e, u) \<Rightarrow> (Inl e, u)
      | (Inr resp, u) \<Rightarrow>
          (case getitem resp 1 of
             Inl e \<Rightarrow> (Inl e, u)
           | Inr b \<Rightarrow>
               if b \<noteq> 0 then (Inr (), u)
               else (case get_finger_info u fpid of
                       (Inl e, u') \<Rightarrow> (Inl e, u')
                     | (Inr _, u') \<Rightarrow> (Inr (), u'))))"

definition delete_by_id :: "usb \<Rightarrow> int \<Rightarrow> (error + unit) \<times> usb" where
  "delete_by_id handle fpid =
     (case get_finger_info handle fpid of
        (Inl e, u) \<Rightarrow> (Inl e, u)
      | (Inr resp, u) \<Rightarrow>
          (case padded_payload fpid (drop 2 resp) of
             Inl e \<Rightarrow> (Inl e, u)
           | Inr payload \<Rightarrow> delete u fpid payload))"

text \<open>
  The \<^verbatim>\<open>delete_all\<close> branch of \<^verbatim>\<open>main\<close>, over the ids still to visit:
  \<^verbatim>\<open>
      for finger_id in range(10):
          resp = get_finger_info(handle, finger_id)
          if resp[-1] == 0xff:
              continue
          payload = (struct.pack("B", 0xf0 | (finger_id + 5)) + resp[2:]).ljust(69, b"\x00")
          delete(handle, finger_id, payload)
  \<close>
\<close>

fun delete_all_loop :: "int list \<Rightarrow> usb \<Rightarrow> (error + unit) \<times> usb" where
  "delete_all_loop [] handle = (Inr (), handle)"
| "delete_all_loop (finger_id # ids) handle =
     (case get_finger_info handle finger_id of
        (Inl e, u) \<Rightarrow> (Inl e, u)
      | (Inr resp, u) \<Rightarrow>
          (case getitem resp (- 1) of
             Inl e \<Rightarrow> (Inl e, u)
           | Inr l \<Rightarrow>
               if l = 0xff then delete_all_loop ids u
               else (case padded_payload finger_id (drop 2 resp) of
                       Inl e \<Rightarrow> (Inl e, u)
                     | Inr payload \<Rightarrow>
                         (case delete u finger_id payload of
                            (Inl e, u') \<Rightarrow> (Inl e, u')
                          | (Inr _, u') \<Rightarrow> delete_all_loop ids u'))))"

definition range10 :: "int list" where
  "range10 = [0, 1, 2, 3, 4, 5, 6, 7, 8, 9]"

definition delete_all :: "usb \<Rightarrow> (error + unit) \<times> usb" where
  "delete_all handle = delete_all_loop range10 handle"

text \<open>The \<^verbatim>\<open>finger_info_all\<close> branch: the same sweep, reading only.\<close>

fun finger_info_all_loop :: "int list \<Rightarrow> usb \<Rightarrow> (error + unit) \<times> usb" where
  "finger_info_all_loop [] handle = (Inr (), handle)"
| "finger_info_all_loop (finger_id # ids) handle =
     (case get_finger_info handle finger_id of
        (Inl e, u) \<Rightarrow> (Inl e, u)
      | (Inr _, u) \<Rightarrow> finger_info_all_loop ids u)"

section \<open>Image pipeline\<close>

text \<open>
  The \<^verbatim>\<open>capture\<close> branch of \<^verbatim>\<open>main\<close>. \<^verbatim>\<open>Image.frombuffer("I;16L", (width, height), resp)\<close>
  reads \<open>width * height\<close> unsigned 16-bit little-endian samples and fails on a buffer that is
  too short. The image is kept as the list of its samples in row-major order, which is the
  order in which both nested loops (\<open>y\<close> outside, \<open>x\<close> inside) visit the pixels.
\<close>

fun le16 :: "bytes \<Rightarrow> int list" where
  "le16 (lo # hi # rest) = (uint lo + 256 * uint hi) # le16 rest"
| "le16 _ = []"

definition frombuffer_I16L :: "nat \<Rightarrow> nat \<Rightarrow> bytes \<Rightarrow> error + int list" where
  "frombuffer_I16L width height buf =
     (if length buf < 2 * width * height then Inl ValueError
      else Inr (take (width * height) (le16 buf)))"

text \<open>
  \<^verbatim>\<open>
      minv = 2<<16-1
      maxv = 0
      for y in range(0, height):
          for x in range(0, width):
              v = img.getpixel((x, y))
              minv = min(minv, v)
              maxv = max(v, maxv)
  \<close>
  In Python \<^verbatim>\<open>2<<16-1\<close> is \<^verbatim>\<open>2 << 15\<close>.
\<close>

fun pixel_range :: "int list \<Rightarrow> int \<Rightarrow> int \<Rightarrow> int \<times> int" where
  "pixel_range [] minv maxv = (minv, maxv)"
| "pixel_range (v # img) minv maxv = pixel_range img (min minv v) (max v maxv)"

text \<open>
  \<^verbatim>\<open>int(a / b)\<close>: true division, then truncation towards zero; \<^verbatim>\<open>ZeroDivisionError\<close>
  when \<open>b\<close> is zero. The quotient is a float in Python. Here \<open>a\<close> is below \<open>2 ^ 24\<close> and \<open>b\<close>
  below \<open>2 ^ 16\<close>, so the float nearest to \<open>a / b\<close> has the same integer part as the exact
  quotient, which is what the model computes.
\<close>

definition int_truediv :: "int \<Rightarrow> int \<Rightarrow> error + int" where
  "int_truediv a b =
     (if b = 0 then Inl ZeroDivisionError
      else if (a < 0) = (b < 0) then Inr (\<bar>a\<bar> div \<bar>b\<bar>)
      else Inr (- (\<bar>a\<bar> div \<bar>b\<bar>)))"

text \<open>
  \<^verbatim>\<open>
      diff = maxv - minv
      for y in range(0, height):
          for x in range(0, width):
              v = img.getpixel((x, y))
              img_8b.putpixel((x, y), int((v - minv) * 256 / diff))
  \<close>
  \<^verbatim>\<open>img_8b\<close> has mode \<^verbatim>\<open>L\<close>, one unsigned byte per pixel:
  \<^verbatim>\<open>putpixel\<close> stores an integer clipped to 0..255. The result lists the pixels of
  \<^verbatim>\<open>img_8b\<close>, in the same order.
\<close>

definition putpixel_L :: "int \<Rightarrow> int" where
  "putpixel_L p = max 0 (min 255 p)"

fun rescale :: "int list \<Rightarrow> int \<Rightarrow> int \<Rightarrow> error + int list" where
  "rescale [] minv diff = Inr []"
| "rescale (v # img) minv diff =
     (case int_truediv ((v - minv) * 256) diff of
        Inl e \<Rightarrow> Inl e
      | Inr p \<Rightarrow>
          (case rescale img minv diff of
             Inl e \<Rightarrow> Inl e
           | Inr ps \<Rightarrow> Inr (putpixel_L p # ps)))"

definition to_8bit :: "int list \<Rightarrow> error + int list" where
  "to_8bit img =
     (case pixel_range img (push_bit (16 - 1) 2) 0 of
        (minv, maxv) \<Rightarrow> rescale img minv (maxv - minv))"

definition capture :: "usb \<Rightarrow> (error + unit) \<times> usb" where
  "capture handle =
     (case command handle ''sensor_size'' [] 2000 of
        (Inl e, u) \<Rightarrow> (Inl e, u)
      | (Inr resp, u) \<Rightarrow>
      (case getitem resp 0 of
         Inl e \<Rightarrow> (Inl e, u)
       | Inr r0 \<Rightarrow>
       (case getitem resp 2 of
          Inl e \<Rightarrow> (Inl e, u)
        | Inr r2 \<Rightarrow>
        (let width = nat (r0 + 1); height = nat (r2 + 1);
             u1 = bulkWrite u 1 [0x00, 0x09] 5000
         in case bulkRead u1 2 (2 * width * height) 5000 of
              (Inl e, u2) \<Rightarrow> (Inl e, u2)
            | (Inr buf, u2) \<Rightarrow>
            (case frombuffer_I16L width height buf of
               Inl e \<Rightarrow> (Inl e, u2)
             | Inr img \<Rightarrow>
             (case to_8bit img of
                Inl e \<Rightarrow> (Inl e, u2)
              | Inr img_8b \<Rightarrow> (Inr (), emit u2 [SavePNG width height img_8b])))))))"

section \<open>Entry point\<close>

text \<open>
  \<^verbatim>\<open>main\<close> runs one branch and, on any exception, writes the \<^verbatim>\<open>abort\<close> opcode
  (\<^verbatim>\<open>handle.bulkWrite(1, COMMANDS["abort"].command)\<close>, timeout 0) and raises again.
  The arguments are taken as parsed.
\<close>

datatype args =
    Reset
  | Verify
  | FwVer
  | FingerInfo int
  | FingerInfoAll
  | EnrolledCount
  | Enroll bytes
  | Raw nat bytes
  | Delete int
  | DeleteAll
  | Capture

definition forget :: "(error + 'a) \<times> usb \<Rightarrow> (error + unit) \<times> usb" where
  "forget r = (case r of (Inl e, u) \<Rightarrow> (Inl e, u) | (Inr _, u) \<Rightarrow> (Inr (), u))"

definition branch :: "args \<Rightarrow> usb \<Rightarrow> (error + unit) \<times> usb" where
  "branch a handle =
     (case a of
        Reset \<Rightarrow> (Inr (), emit handle [ResetDevice])
      | Verify \<Rightarrow> forget (verify handle)
      | FwVer \<Rightarrow>
          (case command handle ''fw_ver'' [] 2000 of
             (Inl e, u) \<Rightarrow> (Inl e, u)
           | (Inr resp, u) \<Rightarrow>
               (case getitem resp 0 of
                  Inl e \<Rightarrow> (Inl e, u)
                | Inr _ \<Rightarrow> (case getitem resp 1 of Inl e \<Rightarrow> (Inl e, u) | Inr _ \<Rightarrow> (Inr (), u))))
      | FingerInfo finger_id \<Rightarrow> forget (get_finger_info handle finger_id)
      | FingerInfoAll \<Rightarrow> finger_info_all_loop range10 handle
      | EnrolledCount \<Rightarrow>
          (case command handle ''enrolled_num'' [] 2000 of
             (Inl e, u) \<Rightarrow> (Inl e, u)
           | (Inr resp, u) \<Rightarrow>
               (case getitem resp 1 of Inl e \<Rightarrow> (Inl e, u) | Inr _ \<Rightarrow> (Inr (), u)))
      | Enroll user_data \<Rightarrow> enroll handle user_data
      | Raw ep payload \<Rightarrow> forget (bulkRead (bulkWrite handle 1 payload 5000) ep 1000 5000)
      | Delete finger_id \<Rightarrow> delete_by_id handle finger_id
      | DeleteAll \<Rightarrow> delete_all handle
      | Capture \<Rightarrow> capture handle)"

definition main :: "args \<Rightarrow> usb \<Rightarrow> (error + unit) \<times> usb" where
  "main a handle =
     (case branch a handle of
        (Inl e, u) \<Rightarrow>
          (case COMMANDS ''abort'' of
             None \<Rightarrow> (Inl KeyError, u)
           | Some c \<Rightarrow> (Inl e, bulkWrite u 1 (opcode c) 0))
      | (Inr x, u) \<Rightarrow> (Inr x, u))"

section \<open>Vocabulary of the properties\<close>

text \<open>The status byte of a reply is its byte 1. The two warnings of \<open>command\<close>, as the
  events they add to the trace.\<close>

definition status_of :: "bytes \<Rightarrow> int" where
  "status_of resp = uint (resp ! 1)"

definition size_warning :: "Command \<Rightarrow> bytes \<Rightarrow> event list" where
  "size_warning c payload =
     (if length (opcode c @ payload) \<noteq> out_len c
      then [WrongCommandSize (length (opcode c @ payload)) (out_len c)] else [])"

definition short_warning :: "Command \<Rightarrow> bytes \<Rightarrow> bytes \<Rightarrow> event list" where
  "short_warning c payload r =
     (if length r < in_len c then [ShorterAnswer (length (opcode c @ payload)) (in_len c)] else [])"

text \<open>What one \<open>finger_info\<close> exchange adds to the trace, for an id that fits one byte
  and the reply \<open>r\<close>; and the test for a write of the \<open>delete\<close> opcode.\<close>

definition info_events :: "int \<Rightarrow> bytes \<Rightarrow> event list" where
  "info_events finger_id r =
     Write 1 [0x40, 0xff, 0x12, word_of_int finger_id] 2000
       # (if length r < 64 then [ShorterAnswer 4 64] else [])"

definition is_delete_write :: "event \<Rightarrow> bool" where
  "is_delete_write e =
     (case e of Write ep data timeout \<Rightarrow> take 3 data = [0x40, 0xff, 0x13] | _ \<Rightarrow> False)"

text \<open>The number of replies with status 0, and the \<open>enroll\<close> writes that the sampling
  loop makes for the replies \<open>rs\<close> when it starts with \<open>done\<close> samples taken: the
  third payload byte of the write for reply \<open>i\<close> counts the successes before it.\<close>

definition successes :: "bytes list \<Rightarrow> nat" where
  "successes rs = length (filter (\<lambda>r. status_of r = 0) rs)"

definition sample_writes :: "int \<Rightarrow> int \<Rightarrow> bytes list \<Rightarrow> event list" where
  "sample_writes finger_id done rs =
     map (\<lambda>i. Write 1 [0x40, 0xff, 0x01, word_of_int finger_id, 8,
                         word_of_int (done + int (successes (take i rs))), 0] 10000)
       [0..<length rs]"

text \<open>The commit payload in the specification's words: the marker byte, the user data and
  zero padding, 69 bytes in all, longer user data being cut.\<close>

definition spec_commit_payload :: "int \<Rightarrow> bytes \<Rightarrow> bytes" where
  "spec_commit_payload finger_id user_data =
     take 69 (word_of_int (0xf0 OR (finger_id + 5)) # user_data
                @ replicate (68 - length user_data) 0x00)"

definition commit_events :: "bytes \<Rightarrow> event list" where
  "commit_events payload =
     (if length payload \<noteq> 69 then [WrongCommandSize (3 + length payload) 72] else [])
       @ [Write 1 ([0x40, 0xff, 0x11] @ payload) 2000]"

text \<open>
  What a sensor slot answers during the \<open>delete_all\<close> sweep, for the slots that do not stop
  it: the record of an unenrolled slot (last byte 0xFF); a record and the non-zero status
  that refuses the delete; a record, the status 0 that grants it and the record read back.
  A record is any reply to \<open>finger_info\<close> that is neither the two-byte error form nor the
  0xFF sentinel; \<open>record_of\<close> is what the bulk read of at most 64 bytes returns of it.
\<close>

datatype slot =
    Unenrolled bytes
  | Refused bytes bytes
  | Deleted bytes bytes bytes

definition record_of :: "bytes \<Rightarrow> bytes" where
  "record_of r = take 64 r"

definition last_byte :: "bytes \<Rightarrow> int" where
  "last_byte r = uint (last (record_of r))"

definition is_record :: "bytes \<Rightarrow> bool" where
  "is_record r = (2 < length r \<and> status_of r \<noteq> 0xff)"

fun slot_ok :: "slot \<Rightarrow> bool" where
  "slot_ok (Unenrolled r) = (is_record r \<and> last_byte r = 0xff)"
| "slot_ok (Refused r d) =
     (is_record r \<and> last_byte r \<noteq> 0xff \<and> 2 \<le> length d \<and> status_of d \<noteq> 0)"
| "slot_ok (Deleted r d a) =
     (is_record r \<and> last_byte r \<noteq> 0xff \<and> 2 \<le> length d \<and> status_of d = 0
      \<and> is_record a)"

fun slot_replies :: "slot \<Rightarrow> bytes list" where
  "slot_replies (Unenrolled r) = [r]"
| "slot_replies (Refused r d) = [r, d]"
| "slot_replies (Deleted r d a) = [r, d, a]"

definition delete_payload :: "int \<Rightarrow> bytes \<Rightarrow> bytes" where
  "delete_payload finger_id r =
     word_of_int (0xf0 OR (finger_id + 5)) # drop 2 (record_of r)
       @ replicate (68 - length (drop 2 (record_of r))) 0x00"

definition delete_write :: "int \<Rightarrow> bytes \<Rightarrow> event" where
  "delete_write finger_id r = Write 1 ([0x40, 0xff, 0x13] @ delete_payload finger_id r) 2000"

fun slot_events :: "int \<Rightarrow> slot \<Rightarrow> event list" where
  "slot_events i (Unenrolled r) = info_events i r"
| "slot_events i (Refused r d) = info_events i r @ [delete_write i r]"
| "slot_events i (Deleted r d a) = info_events i r @ [delete_write i r] @ info_events i a"

text \<open>The two writes of a capture, for the reply \<open>sz\<close> to \<open>sensor_size\<close>; the quotient
  of the rescaling, cut to an integer, for a sample \<open>v\<close> of the frame \<open>img\<close>; and the
  pixel that is stored for it.\<close>

definition capture_events :: "bytes \<Rightarrow> event list" where
  "capture_events sz =
     Write 1 [0x00, 0x0c] 2000 # (if length sz < 4 then [ShorterAnswer 2 4] else [])
       @ [Write 1 [0x00, 0x09] 5000]"

definition scaled :: "int list \<Rightarrow> int \<Rightarrow> int" where
  "scaled img v = (v - Min (set img)) * 256 div (Max (set img) - Min (set img))"

definition pixel_8bit :: "int list \<Rightarrow> int \<Rightarrow> int" where
  "pixel_8bit img v = putpixel_L (scaled img v)"

section \<open>Properties of the status interpreter\<close>

lemma and_high_nibble: "(b::int) AND 0xF0 = push_bit 4 (take_bit 4 (drop_bit 4 b))"
proof -
  have "(0xF0::int) = push_bit 4 (mask 4)"
    by (simp add: mask_eq_exp_minus_1)
  then have "b AND 0xF0 = b AND push_bit 4 (mask 4)"
    by simp
  also have "\<dots> = push_bit 4 (take_bit 4 (drop_bit 4 b))"
    by (auto simp add: bit_eq_iff bit_and_iff bit_push_bit_iff bit_take_bit_iff
        bit_drop_bit_eq bit_mask_iff)
  finally show ?thesis .
qed

lemma high_nibble_zero: "0 \<le> (b::int) \<Longrightarrow> b \<le> 255 \<Longrightarrow> (b AND 0xF0 = 0) = (b < 16)"
  by (simp add: and_high_nibble take_bit_eq_mod drop_bit_eq_div push_bit_eq_mult) arith

lemma hex_digits_two:
  assumes "16 \<le> n" "n < 256"
  shows "hex_digits n = [hexdigit (n div 16), hexdigit (n mod 16)]"
proof -
  from assms have "n div 16 < 16"
    by simp
  then have "hex_digits (n div 16) = [hexdigit (n div 16)]"
    by (simp add: hex_digits.simps)
  with assms show ?thesis
    by (subst hex_digits.simps) simp
qed

lemma ERRORS_known:
  "ERRORS b = None \<longleftrightarrow> b \<notin> {0x41, 0x42, 0x43, 0x44, 0xfb, 0xfd, 0xfe, 0xdd}"
  by (simp add: ERRORS_def)

lemma get_error_high:
  assumes "b AND 0xF0 \<noteq> 0"
  shows "get_error b =
        (if b \<in> {0x41, 0x42, 0x43, 0x44, 0xfb, 0xfd, 0xfe, 0xdd} then ERRORS b
         else Some (''Unknown error '' @ hex b))"
proof (cases "ERRORS b")
  case None
  then have "b \<notin> {0x41, 0x42, 0x43, 0x44, 0xfb, 0xfd, 0xfe, 0xdd}"
    by (rule ERRORS_known [THEN iffD1])
  with None assms show ?thesis
    by (simp only: get_error_def if_False option.case)
next
  case (Some d)
  have "b \<in> {0x41, 0x42, 0x43, 0x44, 0xfb, 0xfd, 0xfe, 0xdd}"
  proof (rule ccontr)
    assume "b \<notin> {0x41, 0x42, 0x43, 0x44, 0xfb, 0xfd, 0xfe, 0xdd}"
    then have "ERRORS b = None"
      by (rule ERRORS_known [THEN iffD2])
    with Some show False
      by simp
  qed
  with Some assms show ?thesis
    by (simp only: get_error_def if_False if_True option.case)
qed


lemma ERRORS_nonempty: "ERRORS b = Some d \<Longrightarrow> d \<noteq> []"
  by (auto simp: ERRORS_def split: if_splits)

lemma get_error_Some_nonempty: "get_error b = Some d \<Longrightarrow> d \<noteq> []"
  by (auto simp: get_error_def split: if_splits option.splits dest: ERRORS_nonempty)

lemma truthy_get_error: "truthy (get_error b) = (get_error b \<noteq> None)"
  by (cases "get_error b") (auto simp: truthy_def dest: get_error_Some_nonempty)


text \<open>
  C1. For a status byte \<open>b\<close> in 0..255, \<open>get_error\<close> returns \<open>None\<close> exactly when
  \<open>b AND 0xF0 = 0\<close>, that is when \<open>b\<close> is below 16. For every other byte the result is never
  \<open>None\<close>: it is the entry of \<open>ERRORS\<close> when \<open>b\<close> is one of the eight known codes, and
  otherwise \<open>Unknown error\<close> followed by \<open>hex b\<close>, which for these bytes is \<open>0x\<close> and two
  lower-case hexadecimal digits.
\<close>

theorem get_error_interpret:
  assumes "0 \<le> b" and "b \<le> 255"
  shows "(get_error b = None \<longleftrightarrow> b AND 0xF0 = 0)
       \<and> (b AND 0xF0 = 0 \<longleftrightarrow> b < 16)
       \<and> (b AND 0xF0 \<noteq> 0 \<longrightarrow>
            get_error b =
              (if b \<in> {0x41, 0x42, 0x43, 0x44, 0xfb, 0xfd, 0xfe, 0xdd} then ERRORS b
               else Some (''Unknown error '' @ hex b))
            \<and> get_error b \<noteq> None
            \<and> hex b = ''0x'' @ [hexdigit (nat b div 16), hexdigit (nat b mod 16)])"
proof -
  have none: "get_error b = None \<longleftrightarrow> b AND 0xF0 = 0"
    by (simp add: get_error_def split: option.splits)
  have low: "b AND 0xF0 = 0 \<longleftrightarrow> b < 16"
    using assms by (rule high_nibble_zero)
  have digits: "hex b = ''0x'' @ [hexdigit (nat b div 16), hexdigit (nat b mod 16)]"
    if hi: "b AND 0xF0 \<noteq> 0"
  proof -
    from hi low have "16 \<le> b"
      by simp
    with assms have "16 \<le> nat b" "nat b < 256"
      by simp_all
    then have "hex_digits (nat b) = [hexdigit (nat b div 16), hexdigit (nat b mod 16)]"
      by (rule hex_digits_two)
    with assms show ?thesis
      by (simp add: hex_def)
  qed
  show ?thesis
  proof (intro conjI impI)
    show "get_error b = None \<longleftrightarrow> b AND 0xF0 = 0"
      by (rule none)
    show "b AND 0xF0 = 0 \<longleftrightarrow> b < 16"
      by (rule low)
  next
    assume "b AND 0xF0 \<noteq> 0"
    then show "get_error b =
        (if b \<in> {0x41, 0x42, 0x43, 0x44, 0xfb, 0xfd, 0xfe, 0xdd} then ERRORS b
         else Some (''Unknown error '' @ hex b))"
      by (rule get_error_high)
  next
    assume "b AND 0xF0 \<noteq> 0"
    with none show "get_error b \<noteq> None"
      by simp
  next
    assume "b AND 0xF0 \<noteq> 0"
    then show "hex b = ''0x'' @ [hexdigit (nat b div 16), hexdigit (nat b mod 16)]"
      by (rule digits)
  qed
qed

theorem get_error_interpret_witness:
  "get_error 0x05 = None \<and> get_error 0xfd = Some ''Finger not enrolled''
   \<and> get_error 0x50 = Some ''Unknown error 0x50'' \<and> hex 0x50 = ''0x50''"
proof -
  have a: "get_error 0x05 = None"
    using get_error_interpret [of "0x05"] by simp
  have b: "get_error 0xfd = Some ''Finger not enrolled''"
    using get_error_interpret [of "0xfd"] by (simp add: ERRORS_def)
  have c: "hex 0x50 = ''0x50''"
    using get_error_interpret [of "0x50"] by (simp add: hexdigit_def)
  have d: "get_error 0x50 = Some (''Unknown error '' @ hex 0x50)"
    using get_error_interpret [of "0x50"] by simp
  from a b c d show ?thesis
    by simp
qed

section \<open>Properties of the command executor and of verify\<close>

lemma command_reply:
  assumes "COMMANDS name = Some c" and "script u = r # rs"
  shows "command u name payload t =
     (Inr (take (in_len c) r),
      \<lparr>script = rs,
         trace = trace u @ size_warning c payload @ [Write (ep_out c) (opcode c @ payload) t]
                  @ short_warning c payload r\<rparr>)"
  using assms
  by (simp add: command_def bulkRead_def bulkWrite_def emit_def Let_def size_warning_def
      short_warning_def)

lemma command_timeout:
  assumes "COMMANDS name = Some c" and "script u = []"
  shows "command u name payload t =
     (Inl USBErrorTimeout,
      \<lparr>script = [],
         trace = trace u @ size_warning c payload @ [Write (ep_out c) (opcode c @ payload) t]\<rparr>)"
  using assms
  by (simp add: command_def bulkRead_def bulkWrite_def emit_def Let_def size_warning_def)

lemma getitem_1: "2 \<le> length r \<Longrightarrow> getitem (take n r) 1 = (if 2 \<le> n then Inr (status_of r) else Inl IndexError)"
  by (auto simp: getitem_def status_of_def Let_def)

lemma getitem_1_short: "length r < 2 \<Longrightarrow> getitem (take n r) 1 = Inl IndexError"
  by (auto simp: getitem_def Let_def)

lemma COMMANDS_verify:
  "COMMANDS ''verify'' = Some \<lparr>opcode = [0x40, 0xff, 0x03], out_len = 3, in_len = 2, ep_out = 1, ep_in = 4\<rparr>"
  by (simp add: COMMANDS_def mk_Command_def)

lemma verify_command:
  assumes "script u = r # rs" and "2 \<le> length r"
  shows "command u ''verify'' [] 5000 =
     (Inr (take 2 r), \<lparr>script = rs, trace = trace u @ [Write 1 [0x40, 0xff, 0x03] 5000]\<rparr>)"
  using assms command_reply [OF COMMANDS_verify, of u r rs "[]" 5000]
  by (simp add: size_warning_def short_warning_def)

lemma verify_run:
  assumes "script u = hints @ r # rest"
    and "\<forall>h\<in>set hints. 2 \<le> length h \<and> get_error (status_of h) \<noteq> None"
    and "2 \<le> length r" and "get_error (status_of r) = None"
  shows "verify u =
     (Inr (status_of r),
      \<lparr>script = rest,
         trace = trace u @ replicate (Suc (length hints)) (Write 1 [0x40, 0xff, 0x03] 5000)\<rparr>)"
  using assms
proof (induction hints arbitrary: u)
  case Nil
  then show ?case
    by (simp add: verify.simps [of u] verify_command getitem_1 truthy_def)
next
  case (Cons h hints)
  let ?u = "\<lparr>script = hints @ r # rest, trace = trace u @ [Write 1 [0x40, 0xff, 0x03] 5000]\<rparr>"
  from Cons.prems have "verify u = verify ?u"
    by (simp add: verify.simps [of u] verify_command getitem_1 truthy_get_error)
  moreover from Cons.prems have "verify ?u =
     (Inr (status_of r),
      \<lparr>script = rest,
         trace = trace ?u @ replicate (Suc (length hints)) (Write 1 [0x40, 0xff, 0x03] 5000)\<rparr>)"
    by (intro Cons.IH) simp_all
  ultimately show ?case
    by simp
qed


text \<open>
  C4. \<open>verify\<close> sends the \<open>verify\<close> command with a timeout of 5000 ms once per reply, as long
  as the status byte of the reply has an error description, and returns byte 1 of the first
  reply whose status byte has none. The hint codes 0x41 to 0x44 have a description, so they
  keep the loop going.
\<close>

theorem verify_loops_until_clean:
  assumes "script u = hints @ r # rest"
    and "\<forall>h\<in>set hints. 2 \<le> length h \<and> get_error (status_of h) \<noteq> None"
    and "2 \<le> length r" and "get_error (status_of r) = None"
  shows "verify u =
     (Inr (status_of r),
      \<lparr>script = rest,
         trace = trace u @ replicate (Suc (length hints)) (Write 1 [0x40, 0xff, 0x03] 5000)\<rparr>)
    \<and> get_error 0x41 \<noteq> None \<and> get_error 0x42 \<noteq> None
    \<and> get_error 0x43 \<noteq> None \<and> get_error 0x44 \<noteq> None"
proof -
  have "get_error 0x41 \<noteq> None \<and> get_error 0x42 \<noteq> None
      \<and> get_error 0x43 \<noteq> None \<and> get_error 0x44 \<noteq> None"
    by (simp add: get_error_def ERRORS_def)
  with verify_run [OF assms] show ?thesis
    by simp
qed

theorem verify_loops_until_clean_witness:
  "verify \<lparr>script = [[0x40, 0x44], [0x40, 0x44], [0x40, 0x44], [0x40, 0x07], [0x01, 0x02]],
            trace = []\<rparr> =
     (Inr 7,
      \<lparr>script = [[0x01, 0x02]],
         trace = [Write 1 [0x40, 0xff, 0x03] 5000, Write 1 [0x40, 0xff, 0x03] 5000,
                  Write 1 [0x40, 0xff, 0x03] 5000, Write 1 [0x40, 0xff, 0x03] 5000]\<rparr>)"
  using verify_loops_until_clean
    [of "\<lparr>script = [[0x40, 0x44], [0x40, 0x44], [0x40, 0x44], [0x40, 0x07], [0x01, 0x02]],
            trace = []\<rparr>"
        "[[0x40, 0x44], [0x40, 0x44], [0x40, 0x44]]" "[0x40, 0x07]" "[[0x01, 0x02]]"]
  by (simp add: status_of_def get_error_def ERRORS_def)

text \<open>
  The claim C10 says that the callers index a short reply defensively. On a reply of one
  byte, \<open>verify\<close> raises \<open>IndexError\<close> when it reads the status byte.
\<close>

theorem verify_short_reply_counterexample:
  "verify \<lparr>script = [[0x40]], trace = []\<rparr> =
     (Inl IndexError,
      \<lparr>script = [], trace = [Write 1 [0x40, 0xff, 0x03] 5000, ShorterAnswer 3 2]\<rparr>)"
  by (simp add: verify.simps command_def COMMANDS_def mk_Command_def bulkRead_def bulkWrite_def
      emit_def getitem_def)

text \<open>
  C10, as the code has it. A reply shorter than \<open>in_len\<close> makes \<open>command\<close> add the warning
  and return the short reply unchanged. The callers do not guard the index: in \<open>verify\<close> a
  reply of fewer than two bytes raises \<open>IndexError\<close> where the status byte is read; with two
  bytes or more that read is in range.
\<close>

theorem short_reply_warned_not_guarded:
  assumes "script u = r # rs"
  shows "(COMMANDS name = Some c \<and> length r < in_len c \<longrightarrow>
            command u name payload t =
              (Inr r,
               \<lparr>script = rs,
                  trace = trace u @ size_warning c payload
                    @ [Write (ep_out c) (opcode c @ payload) t,
                       ShorterAnswer (length (opcode c @ payload)) (in_len c)]\<rparr>))
       \<and> (length r < 2 \<longrightarrow>
            verify u =
              (Inl IndexError,
               \<lparr>script = rs,
                  trace = trace u @ [Write 1 [0x40, 0xff, 0x03] 5000, ShorterAnswer 3 2]\<rparr>))
       \<and> (2 \<le> length r \<longrightarrow> getitem (take 2 r) 1 = Inr (status_of r))"
proof (intro conjI impI)
  assume "COMMANDS name = Some c \<and> length r < in_len c"
  with assms command_reply [of name c u r rs payload t]
  show "command u name payload t =
      (Inr r,
       \<lparr>script = rs,
          trace = trace u @ size_warning c payload
            @ [Write (ep_out c) (opcode c @ payload) t,
               ShorterAnswer (length (opcode c @ payload)) (in_len c)]\<rparr>)"
    by (simp add: short_warning_def)
next
  assume short: "length r < 2"
  with assms command_reply [OF COMMANDS_verify, of u r rs "[]" 5000]
  have "command u ''verify'' [] 5000 =
      (Inr r, \<lparr>script = rs, trace = trace u @ [Write 1 [0x40, 0xff, 0x03] 5000, ShorterAnswer 3 2]\<rparr>)"
    by (simp add: size_warning_def short_warning_def)
  moreover from short have "getitem r 1 = Inl IndexError"
    by (simp add: getitem_def)
  ultimately show "verify u =
      (Inl IndexError,
       \<lparr>script = rs, trace = trace u @ [Write 1 [0x40, 0xff, 0x03] 5000, ShorterAnswer 3 2]\<rparr>)"
    by (simp add: verify.simps [of u])
next
  assume "2 \<le> length r"
  then show "getitem (take 2 r) 1 = Inr (status_of r)"
    by (simp add: getitem_1)
qed

theorem short_reply_warned_not_guarded_witness:
  "command \<lparr>script = [[0x40]], trace = []\<rparr> ''enrolled_num'' [] 2000 =
     (Inr [0x40], \<lparr>script = [], trace = [Write 1 [0x40, 0xff, 0x04] 2000, ShorterAnswer 3 2]\<rparr>)
   \<and> verify \<lparr>script = [[]], trace = []\<rparr> =
     (Inl IndexError,
      \<lparr>script = [], trace = [Write 1 [0x40, 0xff, 0x03] 5000, ShorterAnswer 3 2]\<rparr>)
   \<and> getitem (take 2 [0x40, 0x07, 0x09]) 1 = Inr 7"
proof -
  have c: "COMMANDS ''enrolled_num'' = Some (mk_Command [0x40, 0xff, 0x04] 3 2 1 3)"
    by (simp add: COMMANDS_def)
  have "command \<lparr>script = [[0x40]], trace = []\<rparr> ''enrolled_num'' [] 2000 =
     (Inr [0x40], \<lparr>script = [], trace = [Write 1 [0x40, 0xff, 0x04] 2000, ShorterAnswer 3 2]\<rparr>)"
    using short_reply_warned_not_guarded
      [of "\<lparr>script = [[0x40]], trace = []\<rparr>" "[0x40]" "[]" "''enrolled_num''"
          "mk_Command [0x40, 0xff, 0x04] 3 2 1 3" "[]" 2000] c
    by (simp add: mk_Command_def size_warning_def)
  moreover have "verify \<lparr>script = [[]], trace = []\<rparr> =
     (Inl IndexError,
      \<lparr>script = [], trace = [Write 1 [0x40, 0xff, 0x03] 5000, ShorterAnswer 3 2]\<rparr>)"
    using short_reply_warned_not_guarded [of "\<lparr>script = [[]], trace = []\<rparr>" "[]" "[]"]
    by simp
  moreover have "getitem (take 2 [0x40, 0x07, 0x09]) 1 = Inr 7"
    using short_reply_warned_not_guarded
      [of "\<lparr>script = [[0x40, 0x07, 0x09]], trace = []\<rparr>" "[0x40, 0x07, 0x09]" "[]"]
    by (simp add: status_of_def)
  ultimately show ?thesis
    by simp
qed

section \<open>Properties of finger info and of delete\<close>

lemma COMMANDS_finger_info:
  "COMMANDS ''finger_info'' =
     Some \<lparr>opcode = [0x40, 0xff, 0x12], out_len = 4, in_len = 64, ep_out = 1, ep_in = 3\<rparr>"
  by (simp add: COMMANDS_def mk_Command_def)

lemma finger_info_command:
  assumes "script u = r # rs"
  shows "command u ''finger_info'' [b] 2000 =
     (Inr (take 64 r),
      \<lparr>script = rs,
         trace = trace u @ Write 1 [0x40, 0xff, 0x12, b] 2000
                  # (if length r < 64 then [ShorterAnswer 4 64] else [])\<rparr>)"
  using assms command_reply [OF COMMANDS_finger_info, of u r rs "[b]" 2000]
  by (simp add: size_warning_def short_warning_def)

lemma get_finger_info_step:
  assumes "is_u8 fid" and "script u = r # rest" and "2 \<le> length r"
  shows "get_finger_info u fid =
     (if status_of r = 0xff
      then (case verify \<lparr>script = rest, trace = trace u @ info_events fid r\<rparr> of
              (Inl e, u2) \<Rightarrow> (Inl e, u2)
            | (Inr _, u2) \<Rightarrow> get_finger_info u2 fid)
      else if length r = 2
      then (Inl (IOError (''Error: '' @ format_opt (get_error (status_of r)))),
            \<lparr>script = rest, trace = trace u @ info_events fid r\<rparr>)
      else (Inr (take 64 r), \<lparr>script = rest, trace = trace u @ info_events fid r\<rparr>))"
  using assms
  by (auto simp add: get_finger_info.simps [of u fid] to_bytes_1_def finger_info_command
      getitem_1 info_events_def)


text \<open>
  C5. For an id that fits one byte and a reply of at least two bytes, \<open>get_finger_info\<close>
  writes \<open>finger_info\<close> with the one-byte id and then: when byte 1 of the reply is 0xFF it
  runs \<open>verify\<close> (an error of that round is passed on) and starts again, so that after a
  round answered by hints and one clean reply it is \<open>get_finger_info\<close> on what is left of
  the script; otherwise, when the reply has exactly two bytes, it fails with \<open>IOError\<close>
  carrying the interpreted status; otherwise it returns the reply. The 0xFF test comes
  first: a two-byte reply with byte 1 equal to 0xFF starts the recovery round.
\<close>

theorem get_finger_info_cases:
  assumes "0 \<le> fid" and "fid \<le> 255" and "script u = r # rest" and "2 \<le> length r"
  shows "(status_of r = 0xff \<longrightarrow>
            get_finger_info u fid =
              (case verify \<lparr>script = rest, trace = trace u @ info_events fid r\<rparr> of
                 (Inl e, u2) \<Rightarrow> (Inl e, u2)
               | (Inr _, u2) \<Rightarrow> get_finger_info u2 fid))
       \<and> (status_of r = 0xff \<and> rest = hints @ v # rest'
            \<and> (\<forall>h\<in>set hints. 2 \<le> length h \<and> get_error (status_of h) \<noteq> None)
            \<and> 2 \<le> length v \<and> get_error (status_of v) = None \<longrightarrow>
            get_finger_info u fid =
              get_finger_info
                \<lparr>script = rest',
                   trace = trace u @ info_events fid r
                     @ replicate (Suc (length hints)) (Write 1 [0x40, 0xff, 0x03] 5000)\<rparr> fid)
       \<and> (status_of r \<noteq> 0xff \<and> length r = 2 \<longrightarrow>
            get_finger_info u fid =
              (Inl (IOError (''Error: '' @ format_opt (get_error (status_of r)))),
               \<lparr>script = rest, trace = trace u @ info_events fid r\<rparr>))
       \<and> (status_of r \<noteq> 0xff \<and> length r \<noteq> 2 \<longrightarrow>
            get_finger_info u fid =
              (Inr (take 64 r), \<lparr>script = rest, trace = trace u @ info_events fid r\<rparr>))"
proof -
  from assms have u8: "is_u8 fid"
    by (simp add: is_u8_def)
  note step = get_finger_info_step [OF u8 assms(3) assms(4)]
  show ?thesis
  proof (intro conjI impI)
    assume "status_of r = 0xff"
    with step show "get_finger_info u fid =
        (case verify \<lparr>script = rest, trace = trace u @ info_events fid r\<rparr> of
           (Inl e, u2) \<Rightarrow> (Inl e, u2)
         | (Inr _, u2) \<Rightarrow> get_finger_info u2 fid)"
      by simp
  next
    assume a: "status_of r = 0xff \<and> rest = hints @ v # rest'
        \<and> (\<forall>h\<in>set hints. 2 \<le> length h \<and> get_error (status_of h) \<noteq> None)
        \<and> 2 \<le> length v \<and> get_error (status_of v) = None"
    let ?u1 = "\<lparr>script = rest, trace = trace u @ info_events fid r\<rparr>"
    from a have "verify ?u1 =
        (Inr (status_of v),
         \<lparr>script = rest',
            trace = trace ?u1 @ replicate (Suc (length hints)) (Write 1 [0x40, 0xff, 0x03] 5000)\<rparr>)"
      by (intro verify_run) simp_all
    with step a show "get_finger_info u fid =
        get_finger_info
          \<lparr>script = rest',
             trace = trace u @ info_events fid r
               @ replicate (Suc (length hints)) (Write 1 [0x40, 0xff, 0x03] 5000)\<rparr> fid"
      by simp
  next
    assume "status_of r \<noteq> 0xff \<and> length r = 2"
    with step show "get_finger_info u fid =
        (Inl (IOError (''Error: '' @ format_opt (get_error (status_of r)))),
         \<lparr>script = rest, trace = trace u @ info_events fid r\<rparr>)"
      by simp
  next
    assume "status_of r \<noteq> 0xff \<and> length r \<noteq> 2"
    with step show "get_finger_info u fid =
        (Inr (take 64 r), \<lparr>script = rest, trace = trace u @ info_events fid r\<rparr>)"
      by simp
  qed
qed

theorem get_finger_info_cases_witness:
  "get_finger_info
     \<lparr>script = [[0x40, 0xff], [0x40, 0x44], [0x40, 0x07], [0x40, 0x00, 0x2a]], trace = []\<rparr> 3 =
     (Inr [0x40, 0x00, 0x2a],
      \<lparr>script = [],
         trace = [Write 1 [0x40, 0xff, 0x12, 0x03] 2000, ShorterAnswer 4 64,
                  Write 1 [0x40, 0xff, 0x03] 5000, Write 1 [0x40, 0xff, 0x03] 5000,
                  Write 1 [0x40, 0xff, 0x12, 0x03] 2000, ShorterAnswer 4 64]\<rparr>)
   \<and> get_finger_info \<lparr>script = [[0x40, 0xfd]], trace = []\<rparr> 3 =
     (Inl (IOError ''Error: Finger not enrolled''),
      \<lparr>script = [], trace = [Write 1 [0x40, 0xff, 0x12, 0x03] 2000, ShorterAnswer 4 64]\<rparr>)"
proof -
  let ?w = "\<lparr>script = [[0x40, 0x00, 0x2a]],
       trace = [Write 1 [0x40, 0xff, 0x12, 0x03] 2000, ShorterAnswer 4 64,
                Write 1 [0x40, 0xff, 0x03] 5000, Write 1 [0x40, 0xff, 0x03] 5000]\<rparr>"
  have 1: "get_finger_info
      \<lparr>script = [[0x40, 0xff], [0x40, 0x44], [0x40, 0x07], [0x40, 0x00, 0x2a]], trace = []\<rparr> 3 =
      get_finger_info ?w 3"
    using get_finger_info_cases
      [of 3 "\<lparr>script = [[0x40, 0xff], [0x40, 0x44], [0x40, 0x07], [0x40, 0x00, 0x2a]], trace = []\<rparr>"
          "[0x40, 0xff]" "[[0x40, 0x44], [0x40, 0x07], [0x40, 0x00, 0x2a]]"
          "[[0x40, 0x44]]" "[0x40, 0x07]" "[[0x40, 0x00, 0x2a]]", THEN conjunct2, THEN conjunct1]
    by (simp add: status_of_def info_events_def get_error_def ERRORS_def)
  have 2: "get_finger_info ?w 3 =
      (Inr [0x40, 0x00, 0x2a],
       \<lparr>script = [],
          trace = [Write 1 [0x40, 0xff, 0x12, 0x03] 2000, ShorterAnswer 4 64,
                   Write 1 [0x40, 0xff, 0x03] 5000, Write 1 [0x40, 0xff, 0x03] 5000,
                   Write 1 [0x40, 0xff, 0x12, 0x03] 2000, ShorterAnswer 4 64]\<rparr>)"
    using get_finger_info_cases
      [of 3 ?w "[0x40, 0x00, 0x2a]" "[]", THEN conjunct2, THEN conjunct2, THEN conjunct2]
    by (simp add: status_of_def info_events_def)
  have 3: "get_finger_info \<lparr>script = [[0x40, 0xfd]], trace = []\<rparr> 3 =
      (Inl (IOError ''Error: Finger not enrolled''),
       \<lparr>script = [], trace = [Write 1 [0x40, 0xff, 0x12, 0x03] 2000, ShorterAnswer 4 64]\<rparr>)"
    using get_finger_info_cases
      [of 3 "\<lparr>script = [[0x40, 0xfd]], trace = []\<rparr>" "[0x40, 0xfd]" "[]",
       THEN conjunct2, THEN conjunct2, THEN conjunct1]
    by (simp add: status_of_def info_events_def get_error_def ERRORS_def format_opt_def)
  from 1 2 3 show ?thesis
    by simp
qed

lemma get_error_fd: "get_error 0xfd = Some ''Finger not enrolled''"
  by (simp add: get_error_def ERRORS_def)

lemma get_finger_info_not_enrolled:
  assumes "is_u8 fpid" and "script u = [b0, 0xfd] # rest"
  shows "get_finger_info u fpid =
     (Inl (IOError ''Error: Finger not enrolled''),
      \<lparr>script = rest,
         trace = trace u @ [Write 1 [0x40, 0xff, 0x12, word_of_int fpid] 2000,
                            ShorterAnswer 4 64]\<rparr>)"
  using get_finger_info_step [OF assms(1) assms(2)]
  by (simp add: status_of_def info_events_def get_error_fd format_opt_def)

lemma COMMANDS_abort:
  "COMMANDS ''abort'' =
     Some \<lparr>opcode = [0x40, 0xff, 0x02], out_len = 3, in_len = 2, ep_out = 1, ep_in = 3\<rparr>"
  by (simp add: COMMANDS_def mk_Command_def)

text \<open>
  C8. When the reply to \<open>finger_info\<close> is the two-byte form with status 0xFD,
  \<open>delete_by_id\<close> fails with \<open>IOError\<close> carrying \<open>Finger not enrolled\<close>. The only events
  it adds are the \<open>finger_info\<close> write and the warning about the short reply: no event
  is a write of the \<open>delete\<close> opcode. Run from \<open>main\<close>, the same error comes out after the
  \<open>abort\<close> opcode has been written.
\<close>

theorem delete_by_id_not_enrolled:
  assumes "0 \<le> fpid" and "fpid \<le> 255" and "script u = [b0, 0xfd] # rest"
  shows "delete_by_id u fpid =
     (Inl (IOError ''Error: Finger not enrolled''),
      \<lparr>script = rest,
         trace = trace u @ [Write 1 [0x40, 0xff, 0x12, word_of_int fpid] 2000,
                            ShorterAnswer 4 64]\<rparr>)
    \<and> filter is_delete_write (drop (length (trace u)) (trace (snd (delete_by_id u fpid)))) = []
    \<and> main (Delete fpid) u =
     (Inl (IOError ''Error: Finger not enrolled''),
      \<lparr>script = rest,
         trace = trace u @ [Write 1 [0x40, 0xff, 0x12, word_of_int fpid] 2000,
                            ShorterAnswer 4 64, Write 1 [0x40, 0xff, 0x02] 0]\<rparr>)"
proof -
  from assms have u8: "is_u8 fpid"
    by (simp add: is_u8_def)
  have d: "delete_by_id u fpid =
     (Inl (IOError ''Error: Finger not enrolled''),
      \<lparr>script = rest,
         trace = trace u @ [Write 1 [0x40, 0xff, 0x12, word_of_int fpid] 2000,
                            ShorterAnswer 4 64]\<rparr>)"
    by (simp add: delete_by_id_def get_finger_info_not_enrolled [OF u8 assms(3)])
  have f: "filter is_delete_write (drop (length (trace u)) (trace (snd (delete_by_id u fpid)))) = []"
    by (simp add: d is_delete_write_def)
  have m: "main (Delete fpid) u =
     (Inl (IOError ''Error: Finger not enrolled''),
      \<lparr>script = rest,
         trace = trace u @ [Write 1 [0x40, 0xff, 0x12, word_of_int fpid] 2000,
                            ShorterAnswer 4 64, Write 1 [0x40, 0xff, 0x02] 0]\<rparr>)"
    by (simp add: main_def branch_def d COMMANDS_abort bulkWrite_def emit_def)
  from d f m show ?thesis
    by (intro conjI)
qed

theorem delete_by_id_not_enrolled_witness:
  "delete_by_id \<lparr>script = [[0x40, 0xfd], [0x40, 0x00]], trace = []\<rparr> 5 =
     (Inl (IOError ''Error: Finger not enrolled''),
      \<lparr>script = [[0x40, 0x00]],
         trace = [Write 1 [0x40, 0xff, 0x12, 0x05] 2000, ShorterAnswer 4 64]\<rparr>)"
  using delete_by_id_not_enrolled
    [of 5 "\<lparr>script = [[0x40, 0xfd], [0x40, 0x00]], trace = []\<rparr>" "0x40" "[[0x40, 0x00]]",
     THEN conjunct1]
  by simp

section \<open>Properties of enrollment\<close>

lemma COMMANDS_enroll:
  "COMMANDS ''enroll'' =
     Some \<lparr>opcode = [0x40, 0xff, 0x01], out_len = 7, in_len = 2, ep_out = 1, ep_in = 4\<rparr>"
  by (simp add: COMMANDS_def mk_Command_def)

lemma enroll_command:
  assumes "script u = r # rs" and "2 \<le> length r"
  shows "command u ''enroll'' [a, b, c, d] 10000 =
     (Inr (take 2 r),
      \<lparr>script = rs, trace = trace u @ [Write 1 [0x40, 0xff, 0x01, a, b, c, d] 10000]\<rparr>)"
  using assms command_reply [OF COMMANDS_enroll, of u r rs "[a, b, c, d]" 10000]
  by (simp add: size_warning_def short_warning_def)

lemma successes_Cons:
  "successes (x # xs) = (if status_of x = 0 then Suc (successes xs) else successes xs)"
  by (simp add: successes_def)

lemma sample_writes_Nil: "sample_writes fid d [] = []"
  by (simp add: sample_writes_def)

lemma sample_writes_Cons:
  "sample_writes fid d (x # xs) =
     Write 1 [0x40, 0xff, 0x01, word_of_int fid, 8, word_of_int d, 0] 10000
       # sample_writes fid (if status_of x = 0 then d + 1 else d) xs"
proof -
  have "[0..<length (x # xs)] = 0 # map Suc [0..<length xs]"
    by (simp add: upt_conv_Cons map_Suc_upt del: upt_Suc)
  then show ?thesis
    by (simp add: sample_writes_def successes_Cons successes_def [of "[]"] comp_def add.assoc
        del: upt_Suc)
qed

lemma enroll_samples_step:
  assumes "is_u8 fid" and "0 \<le> d" and "d < 8" and "script u = r # rest" and "2 \<le> length r"
  shows "enroll_samples fid 8 d u =
     (let u1 = \<lparr>script = rest,
                 trace = trace u @ [Write 1 [0x40, 0xff, 0x01, word_of_int fid, 8,
                                             word_of_int d, 0] 10000]\<rparr>
      in if status_of r \<noteq> 0
         then (if status_of r = 0xdd then (Inr False, u1) else enroll_samples fid 8 d u1)
         else enroll_samples fid 8 (d + 1) u1)"
  using assms
  by (simp add: enroll_samples.simps [of fid 8 d u] pack_BBBB_def is_u8_def enroll_command
      getitem_1 Let_def)

lemma enroll_samples_done: "enroll_samples fid 8 8 u = (Inr True, u)"
  by (simp add: enroll_samples.simps [of fid 8 8 u])

lemma enroll_samples_run:
  assumes "is_u8 fid" and "0 \<le> d" and "script u = rs @ r # rest"
    and "\<forall>x\<in>set rs. 2 \<le> length x \<and> status_of x \<noteq> 0xdd"
    and "d + int (successes rs) < 8" and "2 \<le> length r"
    and "status_of r = 0xdd \<or> (status_of r = 0 \<and> d + int (successes rs) = 7)"
  shows "enroll_samples fid 8 d u =
     (Inr (status_of r \<noteq> 0xdd),
      \<lparr>script = rest, trace = trace u @ sample_writes fid d (rs @ [r])\<rparr>)"
  using assms
proof (induction rs arbitrary: u d)
  case Nil
  then have d: "d < 8"
    by (simp add: successes_def)
  from Nil have s: "script u = r # rest"
    by simp
  note step = enroll_samples_step [OF Nil.prems(1) Nil.prems(2) d s Nil.prems(6)]
  from Nil.prems(7) show ?case
  proof
    assume "status_of r = 0xdd"
    with step show ?thesis
      by (simp add: sample_writes_Cons sample_writes_Nil)
  next
    assume "status_of r = 0 \<and> d + int (successes []) = 7"
    then have "status_of r = 0" "d = 7"
      by (simp_all add: successes_def)
    with step show ?thesis
      by (simp add: sample_writes_Cons sample_writes_Nil enroll_samples_done)
  qed
next
  case (Cons x xs)
  let ?d = "if status_of x = 0 then d + 1 else d"
  let ?u = "\<lparr>script = xs @ r # rest,
             trace = trace u @ [Write 1 [0x40, 0xff, 0x01, word_of_int fid, 8,
                                         word_of_int d, 0] 10000]\<rparr>"
  from Cons.prems have d: "d < 8"
    by simp
  from Cons.prems have s: "script u = x # (xs @ r # rest)" and x: "2 \<le> length x"
    and nd: "status_of x \<noteq> 0xdd"
    by simp_all
  have "enroll_samples fid 8 d u = enroll_samples fid 8 ?d ?u"
    using enroll_samples_step [OF Cons.prems(1) Cons.prems(2) d s x] nd
    by (simp add: Let_def)
  moreover have "enroll_samples fid 8 ?d ?u =
     (Inr (status_of r \<noteq> 0xdd),
      \<lparr>script = rest, trace = trace ?u @ sample_writes fid ?d (xs @ [r])\<rparr>)"
  proof (rule Cons.IH)
    show "is_u8 fid"
      by (rule Cons.prems(1))
    show "0 \<le> ?d"
      using Cons.prems(2) by simp
    show "script ?u = xs @ r # rest"
      by simp
    show "\<forall>x\<in>set xs. 2 \<le> length x \<and> status_of x \<noteq> 0xdd"
      using Cons.prems(4) by simp
    show "?d + int (successes xs) < 8"
      using Cons.prems(5) by (simp add: successes_Cons split: if_splits)
    show "2 \<le> length r"
      by (rule Cons.prems(6))
    show "status_of r = 0xdd \<or> (status_of r = 0 \<and> ?d + int (successes xs) = 7)"
      using Cons.prems(7) by (auto simp add: successes_Cons split: if_splits)
  qed
  ultimately show ?case
    by (simp add: sample_writes_Cons)
qed


lemma or_f0_u8: "0 \<le> (x::int) \<Longrightarrow> x \<le> 255 \<Longrightarrow> is_u8 (0xf0 OR x)"
  using OR_upper [of "0xf0" 8 x] by (simp add: is_u8_def)

lemma padded_payload_form:
  assumes "0 \<le> fid" and "fid \<le> 250"
  shows "padded_payload fid data =
     Inr (word_of_int (0xf0 OR (fid + 5)) # data @ replicate (68 - length data) 0x00)"
proof -
  from assms have "is_u8 (0xf0 OR (fid + 5))"
    by (intro or_f0_u8) simp_all
  then show ?thesis
    by (simp add: padded_payload_def pack_B_def ljust_def)
qed

lemma status_of_u8: "0 \<le> status_of e \<and> status_of e \<le> 255"
proof -
  have "uint (e ! 1) < 2 ^ 8"
    using uint_bounded [of "e ! 1"] by simp
  then show ?thesis
    by (simp add: status_of_def)
qed

lemma get_error_None_low: "get_error (status_of e) = None \<Longrightarrow> status_of e < 16"
  using high_nibble_zero [of "status_of e"] status_of_u8 [of e]
  by (simp add: get_error_def split: if_splits option.splits)

lemma enroll_precheck_run:
  assumes "script u = waits @ p # rest"
    and "\<forall>w\<in>set waits. 2 \<le> length w \<and> status_of w \<noteq> 0xfd"
    and "2 \<le> length p" and "status_of p = 0xfd"
  shows "enroll_precheck u =
     (Inr (),
      \<lparr>script = rest,
         trace = trace u @ replicate (Suc (length waits)) (Write 1 [0x40, 0xff, 0x03] 5000)\<rparr>)"
  using assms
proof (induction waits arbitrary: u)
  case Nil
  then show ?case
    by (simp add: enroll_precheck.simps [of u] verify_command getitem_1 get_error_fd truthy_def)
next
  case (Cons w waits)
  let ?u = "\<lparr>script = waits @ p # rest, trace = trace u @ [Write 1 [0x40, 0xff, 0x03] 5000]\<rparr>"
  from Cons.prems have "enroll_precheck u = enroll_precheck ?u"
    by (simp add: enroll_precheck.simps [of u] verify_command getitem_1)
  moreover from Cons.prems have "enroll_precheck ?u =
     (Inr (),
      \<lparr>script = rest,
         trace = trace ?u @ replicate (Suc (length waits)) (Write 1 [0x40, 0xff, 0x03] 5000)\<rparr>)"
    by (intro Cons.IH) simp_all
  ultimately show ?case
    by simp
qed

lemma COMMANDS_enrolled_num:
  "COMMANDS ''enrolled_num'' =
     Some \<lparr>opcode = [0x40, 0xff, 0x04], out_len = 3, in_len = 2, ep_out = 1, ep_in = 3\<rparr>"
  by (simp add: COMMANDS_def mk_Command_def)

lemma COMMANDS_after_enroll:
  "COMMANDS ''after_enroll'' =
     Some \<lparr>opcode = [0x40, 0xff, 0x10], out_len = 3, in_len = 3, ep_out = 1, ep_in = 3\<rparr>"
  by (simp add: COMMANDS_def mk_Command_def)

lemma COMMANDS_commit:
  "COMMANDS ''commit'' =
     Some \<lparr>opcode = [0x40, 0xff, 0x11], out_len = 72, in_len = 2, ep_out = 1, ep_in = 3\<rparr>"
  by (simp add: COMMANDS_def mk_Command_def)


lemma enroll_run:
  assumes "script u = e # waits @ p # rs @ r # a # c # rest"
    and "2 \<le> length e" and "get_error (status_of e) = None"
    and "\<forall>w\<in>set waits. 2 \<le> length w \<and> status_of w \<noteq> 0xfd"
    and "2 \<le> length p" and "status_of p = 0xfd"
    and "\<forall>x\<in>set rs. 2 \<le> length x \<and> status_of x \<noteq> 0xdd"
    and "successes rs = 7" and "2 \<le> length r" and "status_of r = 0"
    and "2 \<le> length c"
  shows "enroll u user_data =
     (Inr (),
      \<lparr>script = rest,
         trace = trace u @ Write 1 [0x40, 0xff, 0x04] 2000
           # replicate (Suc (length waits)) (Write 1 [0x40, 0xff, 0x03] 5000)
           @ sample_writes (status_of e) 0 (rs @ [r])
           @ Write 1 [0x40, 0xff, 0x10] 2000
           # (if length a < 3 then [ShorterAnswer 3 3] else [])
           @ commit_events (word_of_int (0xf0 OR (status_of e + 5)) # user_data
                              @ replicate (68 - length user_data) 0x00)\<rparr>)"
proof -
  let ?fid = "status_of e"
  let ?P = "word_of_int (0xf0 OR (?fid + 5)) # user_data @ replicate (68 - length user_data) 0x00"
  let ?u1 = "\<lparr>script = waits @ p # rs @ r # a # c # rest,
              trace = trace u @ [Write 1 [0x40, 0xff, 0x04] 2000]\<rparr>"
  let ?u2 = "\<lparr>script = rs @ r # a # c # rest,
              trace = trace ?u1 @ replicate (Suc (length waits)) (Write 1 [0x40, 0xff, 0x03] 5000)\<rparr>"
  let ?u3 = "\<lparr>script = a # c # rest,
              trace = trace ?u2 @ sample_writes ?fid 0 (rs @ [r])\<rparr>"
  let ?u4 = "\<lparr>script = c # rest,
              trace = trace ?u3 @ Write 1 [0x40, 0xff, 0x10] 2000
                # (if length a < 3 then [ShorterAnswer 3 3] else [])\<rparr>"
  let ?u5 = "\<lparr>script = rest, trace = trace ?u4 @ commit_events ?P\<rparr>"
  have fid: "0 \<le> ?fid" "?fid < 16"
    using status_of_u8 [of e] get_error_None_low [OF assms(3)] by simp_all
  then have u8: "is_u8 ?fid"
    by (simp add: is_u8_def)
  have c1: "command u ''enrolled_num'' [] 2000 = (Inr (take 2 e), ?u1)"
    using assms(1,2) command_reply [OF COMMANDS_enrolled_num, of u e _ "[]" 2000]
    by (simp add: size_warning_def short_warning_def)
  have g1: "getitem (take 2 e) 1 = Inr ?fid"
    using assms(2) by (simp add: getitem_1)
  have t1: "\<not> truthy (get_error ?fid)"
    using assms(3) by (simp add: truthy_def)
  have c2: "enroll_precheck ?u1 = (Inr (), ?u2)"
    using assms(4,5,6) by (intro enroll_precheck_run) simp_all
  have c3: "enroll_samples ?fid 8 0 ?u2 =
      (Inr (status_of r \<noteq> 0xdd),
       \<lparr>script = a # c # rest, trace = trace ?u2 @ sample_writes ?fid 0 (rs @ [r])\<rparr>)"
    using u8 _ _ assms(7) _ assms(9)
  proof (rule enroll_samples_run)
    show "(0::int) \<le> 0"
      by simp
    show "script ?u2 = rs @ r # a # c # rest"
      by simp
    show "0 + int (successes rs) < 8"
      using assms(8) by simp
    show "status_of r = 0xdd \<or> (status_of r = 0 \<and> 0 + int (successes rs) = 7)"
      using assms(8,10) by simp
  qed
  then have c3': "enroll_samples ?fid 8 0 ?u2 = (Inr True, ?u3)"
    using assms(10) by simp
  have c4: "command ?u3 ''after_enroll'' [] 2000 = (Inr (take 3 a), ?u4)"
    using command_reply [OF COMMANDS_after_enroll, of ?u3 a "c # rest" "[]" 2000]
    by (simp add: size_warning_def short_warning_def)
  have c5: "padded_payload ?fid user_data = Inr ?P"
    using fid by (intro padded_payload_form) simp_all
  have c6: "command ?u4 ''commit'' ?P 2000 = (Inr (take 2 c), ?u5)"
    using assms(11) command_reply [OF COMMANDS_commit, of ?u4 c rest ?P 2000]
    by (simp add: size_warning_def short_warning_def commit_events_def)
  have g2: "getitem (take 2 c) 1 = Inr (status_of c)"
    using assms(11) by (simp add: getitem_1)
  have "enroll u user_data = (Inr (), ?u5)"
    by (simp only: enroll_def c1 g1 t1 c2 c3' c4 c5 c6 g2 prod.case sum.case if_False if_True
        not_True_eq_False)
  then show ?thesis
    by simp
qed


lemma enroll_abort_run:
  assumes "script u = e # waits @ p # rs @ r # rest"
    and "2 \<le> length e" and "get_error (status_of e) = None"
    and "\<forall>w\<in>set waits. 2 \<le> length w \<and> status_of w \<noteq> 0xfd"
    and "2 \<le> length p" and "status_of p = 0xfd"
    and "\<forall>x\<in>set rs. 2 \<le> length x \<and> status_of x \<noteq> 0xdd"
    and "successes rs < 8" and "2 \<le> length r" and "status_of r = 0xdd"
  shows "enroll u user_data =
     (Inr (),
      \<lparr>script = rest,
         trace = trace u @ Write 1 [0x40, 0xff, 0x04] 2000
           # replicate (Suc (length waits)) (Write 1 [0x40, 0xff, 0x03] 5000)
           @ sample_writes (status_of e) 0 (rs @ [r])\<rparr>)"
proof -
  let ?fid = "status_of e"
  let ?u1 = "\<lparr>script = waits @ p # rs @ r # rest,
              trace = trace u @ [Write 1 [0x40, 0xff, 0x04] 2000]\<rparr>"
  let ?u2 = "\<lparr>script = rs @ r # rest,
              trace = trace ?u1 @ replicate (Suc (length waits)) (Write 1 [0x40, 0xff, 0x03] 5000)\<rparr>"
  let ?u3 = "\<lparr>script = rest, trace = trace ?u2 @ sample_writes ?fid 0 (rs @ [r])\<rparr>"
  have u8: "is_u8 ?fid"
    using status_of_u8 [of e] by (simp add: is_u8_def)
  have c1: "command u ''enrolled_num'' [] 2000 = (Inr (take 2 e), ?u1)"
    using assms(1,2) command_reply [OF COMMANDS_enrolled_num, of u e _ "[]" 2000]
    by (simp add: size_warning_def short_warning_def)
  have g1: "getitem (take 2 e) 1 = Inr ?fid"
    using assms(2) by (simp add: getitem_1)
  have t1: "\<not> truthy (get_error ?fid)"
    using assms(3) by (simp add: truthy_def)
  have c2: "enroll_precheck ?u1 = (Inr (), ?u2)"
    using assms(4,5,6) by (intro enroll_precheck_run) simp_all
  have "enroll_samples ?fid 8 0 ?u2 =
      (Inr (status_of r \<noteq> 0xdd),
       \<lparr>script = rest, trace = trace ?u2 @ sample_writes ?fid 0 (rs @ [r])\<rparr>)"
    using u8 _ _ assms(7) _ assms(9)
  proof (rule enroll_samples_run)
    show "(0::int) \<le> 0"
      by simp
    show "script ?u2 = rs @ r # rest"
      by simp
    show "0 + int (successes rs) < 8"
      using assms(8) by simp
    show "status_of r = 0xdd \<or> (status_of r = 0 \<and> 0 + int (successes rs) = 7)"
      using assms(10) by simp
  qed
  then have c3: "enroll_samples ?fid 8 0 ?u2 = (Inr False, ?u3)"
    using assms(10) by simp
  have "enroll u user_data = (Inr (), ?u3)"
    by (simp only: enroll_def c1 g1 t1 c2 c3 prod.case sum.case if_False if_True
        not_False_eq_True)
  then show ?thesis
    by simp
qed

text \<open>
  C3. The sampling loop of \<open>enroll\<close>, started with \<open>attempts_done = 0\<close> and
  \<open>total_attempts = 8\<close>, on replies \<open>rs\<close> none of which has status 0xDD and fewer than
  eight of which have status 0, followed by a reply \<open>r\<close> that either has status 0xDD or is
  the eighth with status 0. For each of these replies the loop writes one \<open>enroll\<close> command,
  timeout 10000 ms, whose four payload bytes are the finger id, 8, the number of replies with
  status 0 seen before, and 0: the counter goes up on status 0 only, and any other status
  that is not 0xDD repeats the same attempt, however many there are. At \<open>r\<close> the loop
  stops and leaves the rest of the script alone: with \<open>False\<close> on 0xDD, with \<open>True\<close> after
  the eighth success. In \<open>enroll\<close> itself, once the enrolled count is read without error
  and the pre-check is answered by 0xFD, a reply 0xDD to a sample ends the whole enrollment
  there: \<open>enroll\<close> returns, nothing is written after the sample commands, and the replies
  that follow stay unread. After the eighth success \<open>enroll\<close> goes on to \<open>after_enroll\<close>
  and \<open>commit\<close> and returns.
\<close>

theorem enroll_sampling_loop:
  assumes "0 \<le> fid" and "fid \<le> 255" and "script u = rs @ r # rest"
    and "\<forall>x\<in>set rs. 2 \<le> length x \<and> status_of x \<noteq> 0xdd"
    and "successes rs < 8" and "2 \<le> length r"
    and "status_of r = 0xdd \<or> (status_of r = 0 \<and> successes rs = 7)"
  shows "enroll_samples fid 8 0 u =
     (Inr (status_of r \<noteq> 0xdd),
      \<lparr>script = rest, trace = trace u @ sample_writes fid 0 (rs @ [r])\<rparr>)
    \<and> length (sample_writes fid 0 (rs @ [r])) = Suc (length rs)
    \<and> (script u0 = e # waits @ p # rs @ r # rest
         \<and> 2 \<le> length e \<and> get_error (status_of e) = None
         \<and> (\<forall>w\<in>set waits. 2 \<le> length w \<and> status_of w \<noteq> 0xfd)
         \<and> 2 \<le> length p \<and> status_of p = 0xfd
         \<and> status_of r = 0xdd \<longrightarrow>
         enroll u0 user_data =
           (Inr (),
            \<lparr>script = rest,
               trace = trace u0 @ Write 1 [0x40, 0xff, 0x04] 2000
                 # replicate (Suc (length waits)) (Write 1 [0x40, 0xff, 0x03] 5000)
                 @ sample_writes (status_of e) 0 (rs @ [r])\<rparr>))
    \<and> (script u0 = e # waits @ p # rs @ r # rest
         \<and> 2 \<le> length e \<and> get_error (status_of e) = None
         \<and> (\<forall>w\<in>set waits. 2 \<le> length w \<and> status_of w \<noteq> 0xfd)
         \<and> 2 \<le> length p \<and> status_of p = 0xfd
         \<and> status_of r = 0 \<and> rest = a # c # rest' \<and> 2 \<le> length c \<longrightarrow>
         enroll u0 user_data =
           (Inr (),
            \<lparr>script = rest',
               trace = trace u0 @ Write 1 [0x40, 0xff, 0x04] 2000
                 # replicate (Suc (length waits)) (Write 1 [0x40, 0xff, 0x03] 5000)
                 @ sample_writes (status_of e) 0 (rs @ [r])
                 @ Write 1 [0x40, 0xff, 0x10] 2000
                 # (if length a < 3 then [ShorterAnswer 3 3] else [])
                 @ commit_events (word_of_int (0xf0 OR (status_of e + 5)) # user_data
                                    @ replicate (68 - length user_data) 0x00)\<rparr>))"
proof (intro conjI impI)
  from assms(1,2) have u8: "is_u8 fid"
    by (simp add: is_u8_def)
  show "enroll_samples fid 8 0 u =
     (Inr (status_of r \<noteq> 0xdd),
      \<lparr>script = rest, trace = trace u @ sample_writes fid 0 (rs @ [r])\<rparr>)"
    using u8 _ assms(3,4) _ assms(6)
  proof (rule enroll_samples_run)
    show "(0::int) \<le> 0"
      by simp
    show "0 + int (successes rs) < 8"
      using assms(5) by simp
    show "status_of r = 0xdd \<or> (status_of r = 0 \<and> 0 + int (successes rs) = 7)"
      using assms(7) by auto
  qed
next
  show "length (sample_writes fid 0 (rs @ [r])) = Suc (length rs)"
    by (simp add: sample_writes_def)
next
  assume h: "script u0 = e # waits @ p # rs @ r # rest
      \<and> 2 \<le> length e \<and> get_error (status_of e) = None
      \<and> (\<forall>w\<in>set waits. 2 \<le> length w \<and> status_of w \<noteq> 0xfd)
      \<and> 2 \<le> length p \<and> status_of p = 0xfd
      \<and> status_of r = 0xdd"
  then have s: "script u0 = e # waits @ p # rs @ r # rest"
    and e: "2 \<le> length e" "get_error (status_of e) = None"
    and w: "\<forall>w\<in>set waits. 2 \<le> length w \<and> status_of w \<noteq> 0xfd"
    and p: "2 \<le> length p" "status_of p = 0xfd" and dd: "status_of r = 0xdd"
    by simp_all
  show "enroll u0 user_data =
      (Inr (),
       \<lparr>script = rest,
          trace = trace u0 @ Write 1 [0x40, 0xff, 0x04] 2000
            # replicate (Suc (length waits)) (Write 1 [0x40, 0xff, 0x03] 5000)
            @ sample_writes (status_of e) 0 (rs @ [r])\<rparr>)"
    using s e w p assms(4,5,6) dd by (rule enroll_abort_run)
next
  assume h: "script u0 = e # waits @ p # rs @ r # rest
      \<and> 2 \<le> length e \<and> get_error (status_of e) = None
      \<and> (\<forall>w\<in>set waits. 2 \<le> length w \<and> status_of w \<noteq> 0xfd)
      \<and> 2 \<le> length p \<and> status_of p = 0xfd
      \<and> status_of r = 0 \<and> rest = a # c # rest' \<and> 2 \<le> length c"
  then have s: "script u0 = e # waits @ p # rs @ r # a # c # rest'"
    and e: "2 \<le> length e" "get_error (status_of e) = None"
    and w: "\<forall>w\<in>set waits. 2 \<le> length w \<and> status_of w \<noteq> 0xfd"
    and p: "2 \<le> length p" "status_of p = 0xfd" and z: "status_of r = 0"
    and c: "2 \<le> length c"
    by simp_all
  from z assms(7) have seven: "successes rs = 7"
    by simp
  show "enroll u0 user_data =
      (Inr (),
       \<lparr>script = rest',
          trace = trace u0 @ Write 1 [0x40, 0xff, 0x04] 2000
            # replicate (Suc (length waits)) (Write 1 [0x40, 0xff, 0x03] 5000)
            @ sample_writes (status_of e) 0 (rs @ [r])
            @ Write 1 [0x40, 0xff, 0x10] 2000
            # (if length a < 3 then [ShorterAnswer 3 3] else [])
            @ commit_events (word_of_int (0xf0 OR (status_of e + 5)) # user_data
                               @ replicate (68 - length user_data) 0x00)\<rparr>)"
    using s e w p assms(4) seven assms(6) z c by (rule enroll_run)
qed

theorem enroll_sampling_loop_witness:
  "enroll_samples 3 8 0
     \<lparr>script = [[0x40, 0x00], [0x40, 0x41], [0x40, 0x00], [0x40, 0xdd], [0x09, 0x09]],
        trace = []\<rparr> =
     (Inr False,
      \<lparr>script = [[0x09, 0x09]],
         trace = [Write 1 [0x40, 0xff, 0x01, 3, 8, 0, 0] 10000,
                  Write 1 [0x40, 0xff, 0x01, 3, 8, 1, 0] 10000,
                  Write 1 [0x40, 0xff, 0x01, 3, 8, 1, 0] 10000,
                  Write 1 [0x40, 0xff, 0x01, 3, 8, 2, 0] 10000]\<rparr>)
   \<and> enroll_samples 3 8 0
     \<lparr>script = [[0x40, 0x00], [0x40, 0x00], [0x40, 0xfe], [0x40, 0x00], [0x40, 0x00],
                 [0x40, 0x00], [0x40, 0x00], [0x40, 0x00], [0x40, 0x00], [0x01]],
        trace = []\<rparr> =
     (Inr True,
      \<lparr>script = [[0x01]],
         trace = [Write 1 [0x40, 0xff, 0x01, 3, 8, 0, 0] 10000,
                  Write 1 [0x40, 0xff, 0x01, 3, 8, 1, 0] 10000,
                  Write 1 [0x40, 0xff, 0x01, 3, 8, 2, 0] 10000,
                  Write 1 [0x40, 0xff, 0x01, 3, 8, 2, 0] 10000,
                  Write 1 [0x40, 0xff, 0x01, 3, 8, 3, 0] 10000,
                  Write 1 [0x40, 0xff, 0x01, 3, 8, 4, 0] 10000,
                  Write 1 [0x40, 0xff, 0x01, 3, 8, 5, 0] 10000,
                  Write 1 [0x40, 0xff, 0x01, 3, 8, 6, 0] 10000,
                  Write 1 [0x40, 0xff, 0x01, 3, 8, 7, 0] 10000]\<rparr>)
   \<and> enroll
     \<lparr>script = [[0x40, 0x02], [0x40, 0xfd], [0x40, 0x00], [0x40, 0xdd],
                 [0x00, 0x00, 0x00], [0x40, 0x00]],
        trace = []\<rparr> [0x61] =
     (Inr (),
      \<lparr>script = [[0x00, 0x00, 0x00], [0x40, 0x00]],
         trace = [Write 1 [0x40, 0xff, 0x04] 2000, Write 1 [0x40, 0xff, 0x03] 5000,
                  Write 1 [0x40, 0xff, 0x01, 2, 8, 0, 0] 10000,
                  Write 1 [0x40, 0xff, 0x01, 2, 8, 1, 0] 10000]\<rparr>)"
proof -
  have a: "enroll_samples 3 8 0
     \<lparr>script = [[0x40, 0x00], [0x40, 0x41], [0x40, 0x00], [0x40, 0xdd], [0x09, 0x09]],
        trace = []\<rparr> =
     (Inr False,
      \<lparr>script = [[0x09, 0x09]],
         trace = [Write 1 [0x40, 0xff, 0x01, 3, 8, 0, 0] 10000,
                  Write 1 [0x40, 0xff, 0x01, 3, 8, 1, 0] 10000,
                  Write 1 [0x40, 0xff, 0x01, 3, 8, 1, 0] 10000,
                  Write 1 [0x40, 0xff, 0x01, 3, 8, 2, 0] 10000]\<rparr>)"
    using enroll_sampling_loop
      [of 3 "\<lparr>script = [[0x40, 0x00], [0x40, 0x41], [0x40, 0x00], [0x40, 0xdd], [0x09, 0x09]],
                trace = []\<rparr>"
          "[[0x40, 0x00], [0x40, 0x41], [0x40, 0x00]]" "[0x40, 0xdd]" "[[0x09, 0x09]]",
       THEN conjunct1]
    by (simp add: successes_Cons successes_def [of "[]"] status_of_def sample_writes_Cons
        sample_writes_Nil)
  have b: "enroll_samples 3 8 0
     \<lparr>script = [[0x40, 0x00], [0x40, 0x00], [0x40, 0xfe], [0x40, 0x00], [0x40, 0x00],
                 [0x40, 0x00], [0x40, 0x00], [0x40, 0x00], [0x40, 0x00], [0x01]],
        trace = []\<rparr> =
     (Inr True,
      \<lparr>script = [[0x01]],
         trace = [Write 1 [0x40, 0xff, 0x01, 3, 8, 0, 0] 10000,
                  Write 1 [0x40, 0xff, 0x01, 3, 8, 1, 0] 10000,
                  Write 1 [0x40, 0xff, 0x01, 3, 8, 2, 0] 10000,
                  Write 1 [0x40, 0xff, 0x01, 3, 8, 2, 0] 10000,
                  Write 1 [0x40, 0xff, 0x01, 3, 8, 3, 0] 10000,
                  Write 1 [0x40, 0xff, 0x01, 3, 8, 4, 0] 10000,
                  Write 1 [0x40, 0xff, 0x01, 3, 8, 5, 0] 10000,
                  Write 1 [0x40, 0xff, 0x01, 3, 8, 6, 0] 10000,
                  Write 1 [0x40, 0xff, 0x01, 3, 8, 7, 0] 10000]\<rparr>)"
    using enroll_sampling_loop
      [of 3 "\<lparr>script = [[0x40, 0x00], [0x40, 0x00], [0x40, 0xfe], [0x40, 0x00], [0x40, 0x00],
                 [0x40, 0x00], [0x40, 0x00], [0x40, 0x00], [0x40, 0x00], [0x01]],
                trace = []\<rparr>"
          "[[0x40, 0x00], [0x40, 0x00], [0x40, 0xfe], [0x40, 0x00], [0x40, 0x00],
            [0x40, 0x00], [0x40, 0x00], [0x40, 0x00]]" "[0x40, 0x00]" "[[0x01]]",
       THEN conjunct1]
    by (simp add: successes_Cons successes_def [of "[]"] status_of_def sample_writes_Cons
        sample_writes_Nil)
  have c: "enroll
     \<lparr>script = [[0x40, 0x02], [0x40, 0xfd], [0x40, 0x00], [0x40, 0xdd],
                 [0x00, 0x00, 0x00], [0x40, 0x00]],
        trace = []\<rparr> [0x61] =
     (Inr (),
      \<lparr>script = [[0x00, 0x00, 0x00], [0x40, 0x00]],
         trace = [Write 1 [0x40, 0xff, 0x04] 2000, Write 1 [0x40, 0xff, 0x03] 5000,
                  Write 1 [0x40, 0xff, 0x01, 2, 8, 0, 0] 10000,
                  Write 1 [0x40, 0xff, 0x01, 2, 8, 1, 0] 10000]\<rparr>)"
    using enroll_sampling_loop
      [of 2 "\<lparr>script = [[0x40, 0x00], [0x40, 0xdd], [0x00, 0x00, 0x00], [0x40, 0x00]],
                trace = []\<rparr>"
          "[[0x40, 0x00]]" "[0x40, 0xdd]" "[[0x00, 0x00, 0x00], [0x40, 0x00]]"
          "\<lparr>script = [[0x40, 0x02], [0x40, 0xfd], [0x40, 0x00], [0x40, 0xdd],
                      [0x00, 0x00, 0x00], [0x40, 0x00]],
             trace = []\<rparr>"
          "[0x40, 0x02]" "[]" "[0x40, 0xfd]" "[0x61]",
       THEN conjunct2, THEN conjunct2, THEN conjunct1]
    by (simp add: successes_Cons successes_def [of "[]"] status_of_def sample_writes_Cons
        sample_writes_Nil get_error_def)
  from a b c show ?thesis
    by (intro conjI)
qed

text \<open>
  The claim C2 says that user data longer than 68 bytes is cut so that the payload stays at
  69 bytes. With 69 bytes of user data the enrollment writes a commit payload of 70 bytes,
  after the warning about the command size.
\<close>

theorem enroll_long_user_data_counterexample:
  "enroll \<lparr>script = [[0x40, 0x00], [0x40, 0xfd], [0x40, 0x00], [0x40, 0x00], [0x40, 0x00],
                      [0x40, 0x00], [0x40, 0x00], [0x40, 0x00], [0x40, 0x00], [0x40, 0x00],
                      [0x00, 0x00, 0x00], [0x40, 0x00]],
            trace = []\<rparr> (replicate 69 0x41) =
     (Inr (),
      \<lparr>script = [],
         trace = [Write 1 [0x40, 0xff, 0x04] 2000, Write 1 [0x40, 0xff, 0x03] 5000,
                  Write 1 [0x40, 0xff, 0x01, 0, 8, 0, 0] 10000,
                  Write 1 [0x40, 0xff, 0x01, 0, 8, 1, 0] 10000,
                  Write 1 [0x40, 0xff, 0x01, 0, 8, 2, 0] 10000,
                  Write 1 [0x40, 0xff, 0x01, 0, 8, 3, 0] 10000,
                  Write 1 [0x40, 0xff, 0x01, 0, 8, 4, 0] 10000,
                  Write 1 [0x40, 0xff, 0x01, 0, 8, 5, 0] 10000,
                  Write 1 [0x40, 0xff, 0x01, 0, 8, 6, 0] 10000,
                  Write 1 [0x40, 0xff, 0x01, 0, 8, 7, 0] 10000,
                  Write 1 [0x40, 0xff, 0x10] 2000,
                  WrongCommandSize 73 72,
                  Write 1 ([0x40, 0xff, 0x11, 0xf5] @ replicate 69 0x41) 2000]\<rparr>)
   \<and> padded_payload 0 (replicate 69 0x41) = Inr (0xf5 # replicate 69 0x41)
   \<and> length (0xf5 # replicate 69 (0x41::byte)) = 70
   \<and> length (spec_commit_payload 0 (replicate 69 0x41)) = 69"
  by (simp add: enroll_def enroll_precheck.simps enroll_samples.simps command_def COMMANDS_def
      mk_Command_def bulkRead_def bulkWrite_def emit_def getitem_def get_error_def ERRORS_def
      truthy_def pack_BBBB_def pack_B_def is_u8_def padded_payload_def ljust_def
      spec_commit_payload_def)


text \<open>
  C2, as the code has it. In an enrollment that reaches the commit (the enrolled count read
  without error, the pre-check answered by 0xFD, eight samples taken), the payload of the
  \<open>commit\<close> command is the marker byte \<open>0xF0 OR (finger_id + 5)\<close>, the user data and
  zero padding up to 69 bytes. For user data of at most 68 bytes this is the 69-byte payload
  of the specification. Longer user data is not cut: the payload is the marker byte followed
  by all of the user data, and \<open>command\<close> warns about the size and writes it.
\<close>

theorem enroll_commit_payload:
  assumes "script u = e # waits @ p # rs @ r # a # c # rest"
    and "2 \<le> length e" and "get_error (status_of e) = None"
    and "\<forall>w\<in>set waits. 2 \<le> length w \<and> status_of w \<noteq> 0xfd"
    and "2 \<le> length p" and "status_of p = 0xfd"
    and "\<forall>x\<in>set rs. 2 \<le> length x \<and> status_of x \<noteq> 0xdd"
    and "successes rs = 7" and "2 \<le> length r" and "status_of r = 0"
    and "2 \<le> length c"
  shows "(length user_data \<le> 68 \<longrightarrow>
            padded_payload (status_of e) user_data
              = Inr (spec_commit_payload (status_of e) user_data)
            \<and> length (spec_commit_payload (status_of e) user_data) = 69)
       \<and> (68 < length user_data \<longrightarrow>
            padded_payload (status_of e) user_data
              = Inr (word_of_int (0xf0 OR (status_of e + 5)) # user_data))
       \<and> enroll u user_data =
            (Inr (),
             \<lparr>script = rest,
                trace = trace u @ Write 1 [0x40, 0xff, 0x04] 2000
                  # replicate (Suc (length waits)) (Write 1 [0x40, 0xff, 0x03] 5000)
                  @ sample_writes (status_of e) 0 (rs @ [r])
                  @ Write 1 [0x40, 0xff, 0x10] 2000
                  # (if length a < 3 then [ShorterAnswer 3 3] else [])
                  @ commit_events (word_of_int (0xf0 OR (status_of e + 5)) # user_data
                                     @ replicate (68 - length user_data) 0x00)\<rparr>)"
proof -
  have fid: "0 \<le> status_of e" "status_of e \<le> 250"
    using status_of_u8 [of e] get_error_None_low [OF assms(3)] by simp_all
  note form = padded_payload_form [OF fid, of user_data]
  have short: "padded_payload (status_of e) user_data
        = Inr (spec_commit_payload (status_of e) user_data)
      \<and> length (spec_commit_payload (status_of e) user_data) = 69"
    if "length user_data \<le> 68"
    using that form by (simp add: spec_commit_payload_def)
  have long: "padded_payload (status_of e) user_data
        = Inr (word_of_int (0xf0 OR (status_of e + 5)) # user_data)"
    if "68 < length user_data"
    using that form by simp
  from short long enroll_run [OF assms, of user_data] show ?thesis
    by blast
qed

theorem enroll_commit_payload_witness:
  "enroll \<lparr>script = [[0x40, 0x00], [0x40, 0xfd], [0x40, 0x00], [0x40, 0x00], [0x40, 0x00],
                      [0x40, 0x00], [0x40, 0x00], [0x40, 0x00], [0x40, 0x00], [0x40, 0x00],
                      [0x00, 0x00, 0x00], [0x40, 0x00]],
            trace = []\<rparr> [0x61, 0x62] =
     (Inr (),
      \<lparr>script = [],
         trace = [Write 1 [0x40, 0xff, 0x04] 2000, Write 1 [0x40, 0xff, 0x03] 5000,
                  Write 1 [0x40, 0xff, 0x01, 0, 8, 0, 0] 10000,
                  Write 1 [0x40, 0xff, 0x01, 0, 8, 1, 0] 10000,
                  Write 1 [0x40, 0xff, 0x01, 0, 8, 2, 0] 10000,
                  Write 1 [0x40, 0xff, 0x01, 0, 8, 3, 0] 10000,
                  Write 1 [0x40, 0xff, 0x01, 0, 8, 4, 0] 10000,
                  Write 1 [0x40, 0xff, 0x01, 0, 8, 5, 0] 10000,
                  Write 1 [0x40, 0xff, 0x01, 0, 8, 6, 0] 10000,
                  Write 1 [0x40, 0xff, 0x01, 0, 8, 7, 0] 10000,
                  Write 1 [0x40, 0xff, 0x10] 2000,
                  Write 1 ([0x40, 0xff, 0x11, 0xf5, 0x61, 0x62] @ replicate 66 0x00) 2000]\<rparr>)
   \<and> padded_payload 0 [0x61, 0x62] = Inr (spec_commit_payload 0 [0x61, 0x62])
   \<and> length (spec_commit_payload 0 [0x61, 0x62]) = 69"
proof -
  note w = enroll_commit_payload
    [of "\<lparr>script = [[0x40, 0x00], [0x40, 0xfd], [0x40, 0x00], [0x40, 0x00], [0x40, 0x00],
                      [0x40, 0x00], [0x40, 0x00], [0x40, 0x00], [0x40, 0x00], [0x40, 0x00],
                      [0x00, 0x00, 0x00], [0x40, 0x00]],
            trace = []\<rparr>"
        "[0x40, 0x00]" "[]" "[0x40, 0xfd]"
        "[[0x40, 0x00], [0x40, 0x00], [0x40, 0x00], [0x40, 0x00], [0x40, 0x00],
          [0x40, 0x00], [0x40, 0x00]]"
        "[0x40, 0x00]" "[0x00, 0x00, 0x00]" "[0x40, 0x00]" "[]" "[0x61, 0x62]"]
  have a: "enroll \<lparr>script = [[0x40, 0x00], [0x40, 0xfd], [0x40, 0x00], [0x40, 0x00], [0x40, 0x00],
                      [0x40, 0x00], [0x40, 0x00], [0x40, 0x00], [0x40, 0x00], [0x40, 0x00],
                      [0x00, 0x00, 0x00], [0x40, 0x00]],
            trace = []\<rparr> [0x61, 0x62] =
     (Inr (),
      \<lparr>script = [],
         trace = [Write 1 [0x40, 0xff, 0x04] 2000, Write 1 [0x40, 0xff, 0x03] 5000,
                  Write 1 [0x40, 0xff, 0x01, 0, 8, 0, 0] 10000,
                  Write 1 [0x40, 0xff, 0x01, 0, 8, 1, 0] 10000,
                  Write 1 [0x40, 0xff, 0x01, 0, 8, 2, 0] 10000,
                  Write 1 [0x40, 0xff, 0x01, 0, 8, 3, 0] 10000,
                  Write 1 [0x40, 0xff, 0x01, 0, 8, 4, 0] 10000,
                  Write 1 [0x40, 0xff, 0x01, 0, 8, 5, 0] 10000,
                  Write 1 [0x40, 0xff, 0x01, 0, 8, 6, 0] 10000,
                  Write 1 [0x40, 0xff, 0x01, 0, 8, 7, 0] 10000,
                  Write 1 [0x40, 0xff, 0x10] 2000,
                  Write 1 ([0x40, 0xff, 0x11, 0xf5, 0x61, 0x62] @ replicate 66 0x00) 2000]\<rparr>)"
    using w [THEN conjunct2, THEN conjunct2]
    by (simp add: status_of_def get_error_def successes_Cons successes_def [of "[]"]
        sample_writes_Cons sample_writes_Nil commit_events_def)
  have b: "padded_payload 0 [0x61, 0x62] = Inr (spec_commit_payload 0 [0x61, 0x62])
      \<and> length (spec_commit_payload 0 [0x61, 0x62]) = 69"
    using w [THEN conjunct1]
    by (simp add: status_of_def get_error_def successes_Cons successes_def [of "[]"])
  from a b show ?thesis
    by simp
qed

section \<open>Properties of the delete sweep\<close>

lemma COMMANDS_delete:
  "COMMANDS ''delete'' =
     Some \<lparr>opcode = [0x40, 0xff, 0x13], out_len = 72, in_len = 2, ep_out = 1, ep_in = 3\<rparr>"
  by (simp add: COMMANDS_def mk_Command_def)

lemma delete_payload_length: "length (delete_payload i r) = 69"
  by (simp add: delete_payload_def record_of_def)

lemma getitem_last: "resp \<noteq> [] \<Longrightarrow> getitem resp (- 1) = Inr (uint (last resp))"
  by (simp add: getitem_def Let_def last_conv_nth nat_diff_distrib' int_ops)

lemma get_finger_info_record:
  assumes "is_u8 i" and "script u = r # rest" and "is_record r"
  shows "get_finger_info u i =
     (Inr (record_of r), \<lparr>script = rest, trace = trace u @ info_events i r\<rparr>)"
  using assms get_finger_info_step [of i u r rest]
  by (simp add: is_record_def record_of_def)

lemma delete_command:
  assumes "script u = d # rest" and "2 \<le> length d"
  shows "command u ''delete'' (delete_payload i r) 2000 =
     (Inr (take 2 d), \<lparr>script = rest, trace = trace u @ [delete_write i r]\<rparr>)"
  using assms command_reply [OF COMMANDS_delete, of u d rest "delete_payload i r" 2000]
  by (simp add: size_warning_def short_warning_def delete_payload_length delete_write_def)

lemma padded_payload_record:
  assumes "0 \<le> i" and "i \<le> 250"
  shows "padded_payload i (drop 2 (record_of r)) = Inr (delete_payload i r)"
  using padded_payload_form [OF assms] by (simp add: delete_payload_def)


lemma getitem_last_record:
  assumes "is_record r"
  shows "getitem (record_of r) (- 1) = Inr (last_byte r)"
proof -
  from assms have "record_of r \<noteq> []"
    by (auto simp add: is_record_def record_of_def)
  then show ?thesis
    by (simp add: getitem_last last_byte_def)
qed

lemma delete_refused:
  assumes "script u = d # rest" and "2 \<le> length d" and "status_of d \<noteq> 0"
  shows "delete u i (delete_payload i r) =
     (Inr (), \<lparr>script = rest, trace = trace u @ [delete_write i r]\<rparr>)"
  using assms by (simp add: delete_def delete_command getitem_1)

lemma delete_granted:
  assumes "is_u8 i" and "script u = d # a # rest" and "2 \<le> length d" and "status_of d = 0"
    and "is_record a"
  shows "delete u i (delete_payload i r) =
     (Inr (), \<lparr>script = rest, trace = trace u @ [delete_write i r] @ info_events i a\<rparr>)"
proof -
  let ?u1 = "\<lparr>script = a # rest, trace = trace u @ [delete_write i r]\<rparr>"
  have "get_finger_info ?u1 i =
      (Inr (record_of a), \<lparr>script = rest, trace = trace ?u1 @ info_events i a\<rparr>)"
    using assms(1) _ assms(5) by (rule get_finger_info_record) simp
  with assms(2,3,4) show ?thesis
    by (simp add: delete_def delete_command getitem_1)
qed

lemma delete_all_slot:
  assumes "0 \<le> i" and "i \<le> 250" and "slot_ok s" and "script u = slot_replies s @ rest"
  shows "delete_all_loop (i # ids) u =
     delete_all_loop ids \<lparr>script = rest, trace = trace u @ slot_events i s\<rparr>"
proof -
  from assms(1,2) have u8: "is_u8 i"
    by (simp add: is_u8_def)
  note pp = padded_payload_record [OF assms(1,2)]
  show ?thesis
  proof (cases s)
    case (Unenrolled r)
    with assms(3,4) have r: "is_record r" "last_byte r = 0xff" "script u = r # rest"
      by simp_all
    from get_finger_info_record [OF u8 r(3) r(1)] getitem_last_record [OF r(1)] r(2) Unenrolled
    show ?thesis
      by simp
  next
    case (Refused r d)
    with assms(3,4) have r: "is_record r" "last_byte r \<noteq> 0xff" "script u = r # d # rest"
      and d: "2 \<le> length d" "status_of d \<noteq> 0"
      by simp_all
    let ?u1 = "\<lparr>script = d # rest, trace = trace u @ info_events i r\<rparr>"
    have "delete ?u1 i (delete_payload i r) =
        (Inr (), \<lparr>script = rest, trace = trace ?u1 @ [delete_write i r]\<rparr>)"
      using _ d by (rule delete_refused) simp
    with get_finger_info_record [OF u8 r(3) r(1)] getitem_last_record [OF r(1)] r(2) Refused
    show ?thesis
      by (simp add: pp)
  next
    case (Deleted r d a)
    with assms(3,4) have r: "is_record r" "last_byte r \<noteq> 0xff" "script u = r # d # a # rest"
      and d: "2 \<le> length d" "status_of d = 0" and a: "is_record a"
      by simp_all
    let ?u1 = "\<lparr>script = d # a # rest, trace = trace u @ info_events i r\<rparr>"
    have "delete ?u1 i (delete_payload i r) =
        (Inr (), \<lparr>script = rest, trace = trace ?u1 @ [delete_write i r] @ info_events i a\<rparr>)"
      using u8 _ d a by (rule delete_granted) simp
    with get_finger_info_record [OF u8 r(3) r(1)] getitem_last_record [OF r(1)] r(2) Deleted
    show ?thesis
      by (simp add: pp)
  qed
qed

lemma delete_all_loop_sweep:
  assumes "length slots = length ids" and "\<forall>i\<in>set ids. 0 \<le> i \<and> i \<le> 250"
    and "\<forall>s\<in>set slots. slot_ok s" and "script u = concat (map slot_replies slots) @ rest"
  shows "delete_all_loop (ids @ later) u =
     delete_all_loop later
       \<lparr>script = rest, trace = trace u @ concat (map2 slot_events ids slots)\<rparr>"
  using assms
proof (induction ids arbitrary: slots u)
  case Nil
  then have "\<lparr>script = rest, trace = trace u\<rparr> = u"
    by (cases u) simp
  then show ?case
    by simp
next
  case (Cons i ids)
  then obtain s slots' where sl: "slots = s # slots'"
    by (cases slots) simp_all
  let ?u = "\<lparr>script = concat (map slot_replies slots') @ rest, trace = trace u @ slot_events i s\<rparr>"
  have "delete_all_loop ((i # ids) @ later) u = delete_all_loop (ids @ later) ?u"
    using Cons.prems sl delete_all_slot [of i s u "concat (map slot_replies slots') @ rest" "ids @ later"]
    by simp
  moreover have "delete_all_loop (ids @ later) ?u =
      delete_all_loop later
        \<lparr>script = rest, trace = trace ?u @ concat (map2 slot_events ids slots')\<rparr>"
    using Cons.prems sl by (intro Cons.IH) simp_all
  ultimately show ?case
    using sl by simp
qed

lemma delete_all_loop_fails:
  assumes "0 \<le> i" and "i \<le> 255" and "script u = [b0, b1] # rest" and "b1 \<noteq> 0xff"
  shows "delete_all_loop (i # ids) u =
     (Inl (IOError (''Error: '' @ format_opt (get_error (uint b1)))),
      \<lparr>script = rest, trace = trace u @ info_events i [b0, b1]\<rparr>)"
proof -
  from assms(1,2) have u8: "is_u8 i"
    by (simp add: is_u8_def)
  have "uint b1 \<noteq> 0xff"
  proof
    assume "uint b1 = 0xff"
    then have "word_of_int (uint b1) = (word_of_int 0xff :: byte)"
      by simp
    with assms(4) show False
      by simp
  qed
  with get_finger_info_step [OF u8 assms(3)] show ?thesis
    by (simp add: status_of_def)
qed


lemma range10_upt: "range10 = map int [0..<10]"
  by (simp add: range10_def upt_rec)

lemma range10_split:
  assumes "k < 10"
  shows "range10 = map int [0..<k] @ int k # map int [Suc k..<10]"
proof -
  from assms have "[0..<10] = [0..<k] @ k # [Suc k..<10]"
    by (metis less_imp_le_nat upt_add_eq_append upt_conv_Cons zero_le le_add_diff_inverse)
  then show ?thesis
    by (simp add: range10_upt)
qed

lemma map2_shorter:
  "length ys \<le> length xs \<Longrightarrow> map2 f xs ys = map2 f (take (length ys) xs) ys"
proof -
  assume "length ys \<le> length xs"
  have "zip xs ys = take (length ys) (zip xs ys)"
    by simp
  also have "\<dots> = zip (take (length ys) xs) ys"
    by (simp add: take_zip)
  finally show ?thesis
    by simp
qed


text \<open>
  The claim C9 says that the sweep goes on through all ten slots whatever fails in a slot.
  When slot 0 answers \<open>finger_info\<close> with the two-byte error form, \<open>delete_all\<close> ends
  there with the \<open>IOError\<close>: the reply waiting for slot 1 is never read.
\<close>

theorem delete_all_stops_counterexample:
  "delete_all \<lparr>script = [[0x40, 0xfd], [0x40, 0x00, 0xff]], trace = []\<rparr> =
     (Inl (IOError ''Error: Finger not enrolled''),
      \<lparr>script = [[0x40, 0x00, 0xff]],
         trace = [Write 1 [0x40, 0xff, 0x12, 0x00] 2000, ShorterAnswer 4 64]\<rparr>)"
  by (simp add: delete_all_def range10_def get_finger_info.simps to_bytes_1_def is_u8_def
      command_def COMMANDS_def mk_Command_def bulkRead_def bulkWrite_def emit_def getitem_def
      get_error_def ERRORS_def format_opt_def)

text \<open>
  C9, as the code has it. \<open>delete_all\<close> visits the ids 0 to 9 in order. As long as each
  slot answers with a record, the sweep goes on: a record whose last byte is 0xFF is skipped
  with no delete; for any other record one \<open>delete\<close> command is written, its payload being
  \<open>0xF0 OR (id + 5)\<close>, the record from byte 2 on and zero padding, 69 bytes in all; a
  delete refused with a non-zero status is not retried and does not stop the sweep, and
  after a delete granted with status 0 the record is read back. After ten such slots the
  sweep ends normally. A slot that answers \<open>finger_info\<close> with the two-byte error form
  ends the sweep at once with the \<open>IOError\<close> of that status: the later ids are not visited.
\<close>

theorem delete_all_sweep:
  assumes "\<forall>s\<in>set slots. slot_ok s"
    and "script u = concat (map slot_replies slots) @ rest"
  shows "(length slots = 10 \<longrightarrow>
            delete_all u =
              (Inr (),
               \<lparr>script = rest,
                  trace = trace u @ concat (map2 slot_events range10 slots)\<rparr>))
       \<and> (length slots < 10 \<and> rest = [b0, b1] # rest' \<and> b1 \<noteq> 0xff \<longrightarrow>
            delete_all u =
              (Inl (IOError (''Error: '' @ format_opt (get_error (uint b1)))),
               \<lparr>script = rest',
                  trace = trace u @ concat (map2 slot_events range10 slots)
                    @ info_events (int (length slots)) [b0, b1]\<rparr>))
       \<and> length (delete_payload i r) = 69
       \<and> range10 = map int [0..<10]"
proof (intro conjI impI)
  assume len: "length slots = 10"
  have "delete_all_loop (range10 @ []) u =
      delete_all_loop []
        \<lparr>script = rest, trace = trace u @ concat (map2 slot_events range10 slots)\<rparr>"
    using _ _ assms
  proof (rule delete_all_loop_sweep)
    show "length slots = length range10"
      using len by (simp add: range10_def)
    show "\<forall>i\<in>set range10. 0 \<le> i \<and> i \<le> 250"
      by (simp add: range10_def)
  qed
  then show "delete_all u =
      (Inr (), \<lparr>script = rest, trace = trace u @ concat (map2 slot_events range10 slots)\<rparr>)"
    by (simp add: delete_all_def)
next
  assume a: "length slots < 10 \<and> rest = [b0, b1] # rest' \<and> b1 \<noteq> 0xff"
  let ?k = "length slots"
  let ?ids = "map int [0..<?k]"
  let ?u = "\<lparr>script = rest, trace = trace u @ concat (map2 slot_events ?ids slots)\<rparr>"
  from a have split: "range10 = ?ids @ int ?k # map int [Suc ?k..<10]"
    by (intro range10_split) simp
  have "delete_all_loop (?ids @ int ?k # map int [Suc ?k..<10]) u =
      delete_all_loop (int ?k # map int [Suc ?k..<10]) ?u"
    using _ _ assms
  proof (rule delete_all_loop_sweep)
    show "length slots = length ?ids"
      by simp
    show "\<forall>i\<in>set ?ids. 0 \<le> i \<and> i \<le> 250"
      using a by auto
  qed
  moreover have "delete_all_loop (int ?k # map int [Suc ?k..<10]) ?u =
      (Inl (IOError (''Error: '' @ format_opt (get_error (uint b1)))),
       \<lparr>script = rest', trace = trace ?u @ info_events (int ?k) [b0, b1]\<rparr>)"
    using a by (intro delete_all_loop_fails) simp_all
  moreover have "map2 slot_events range10 slots = map2 slot_events ?ids slots"
  proof -
    from a have "length slots \<le> length range10"
      by (simp add: range10_def)
    then have "map2 slot_events range10 slots = map2 slot_events (take ?k range10) slots"
      by (rule map2_shorter)
    moreover from a have "take ?k range10 = ?ids"
      by (simp add: range10_upt take_map)
    ultimately show ?thesis
      by simp
  qed
  ultimately show "delete_all u =
      (Inl (IOError (''Error: '' @ format_opt (get_error (uint b1)))),
       \<lparr>script = rest',
          trace = trace u @ concat (map2 slot_events range10 slots)
            @ info_events (int (length slots)) [b0, b1]\<rparr>)"
    using split by (simp add: delete_all_def)
next
  show "length (delete_payload i r) = 69"
    by (rule delete_payload_length)
  show "range10 = map int [0..<10]"
    by (rule range10_upt)
qed


theorem delete_all_sweep_witness:
  "delete_all
     \<lparr>script = [[0x40, 0x00, 0x01], [0x40, 0xfe],
                 [0x40, 0x00, 0x02], [0x40, 0x00], [0x40, 0x00, 0xff],
                 [0x40, 0x00, 0xff], [0x40, 0x00, 0xff], [0x40, 0x00, 0xff], [0x40, 0x00, 0xff],
                 [0x40, 0x00, 0xff], [0x40, 0x00, 0xff], [0x40, 0x00, 0xff], [0x40, 0x00, 0xff]],
        trace = []\<rparr> =
     (Inr (),
      \<lparr>script = [],
         trace = [Write 1 [0x40, 0xff, 0x12, 0] 2000, ShorterAnswer 4 64,
                  Write 1 ([0x40, 0xff, 0x13, 0xf5, 0x01] @ replicate 67 0x00) 2000,
                  Write 1 [0x40, 0xff, 0x12, 1] 2000, ShorterAnswer 4 64,
                  Write 1 ([0x40, 0xff, 0x13, 0xf6, 0x02] @ replicate 67 0x00) 2000,
                  Write 1 [0x40, 0xff, 0x12, 1] 2000, ShorterAnswer 4 64,
                  Write 1 [0x40, 0xff, 0x12, 2] 2000, ShorterAnswer 4 64,
                  Write 1 [0x40, 0xff, 0x12, 3] 2000, ShorterAnswer 4 64,
                  Write 1 [0x40, 0xff, 0x12, 4] 2000, ShorterAnswer 4 64,
                  Write 1 [0x40, 0xff, 0x12, 5] 2000, ShorterAnswer 4 64,
                  Write 1 [0x40, 0xff, 0x12, 6] 2000, ShorterAnswer 4 64,
                  Write 1 [0x40, 0xff, 0x12, 7] 2000, ShorterAnswer 4 64,
                  Write 1 [0x40, 0xff, 0x12, 8] 2000, ShorterAnswer 4 64,
                  Write 1 [0x40, 0xff, 0x12, 9] 2000, ShorterAnswer 4 64]\<rparr>)
   \<and> delete_all
     \<lparr>script = [[0x40, 0x00, 0xff], [0x40, 0x00, 0x01], [0x40, 0xfe], [0x40, 0xfd],
                 [0x40, 0x00, 0xff]],
        trace = []\<rparr> =
     (Inl (IOError ''Error: Finger not enrolled''),
      \<lparr>script = [[0x40, 0x00, 0xff]],
         trace = [Write 1 [0x40, 0xff, 0x12, 0] 2000, ShorterAnswer 4 64,
                  Write 1 [0x40, 0xff, 0x12, 1] 2000, ShorterAnswer 4 64,
                  Write 1 ([0x40, 0xff, 0x13, 0xf6, 0x01] @ replicate 67 0x00) 2000,
                  Write 1 [0x40, 0xff, 0x12, 2] 2000, ShorterAnswer 4 64]\<rparr>)"
proof -
  have a: "delete_all
     \<lparr>script = [[0x40, 0x00, 0x01], [0x40, 0xfe],
                 [0x40, 0x00, 0x02], [0x40, 0x00], [0x40, 0x00, 0xff],
                 [0x40, 0x00, 0xff], [0x40, 0x00, 0xff], [0x40, 0x00, 0xff], [0x40, 0x00, 0xff],
                 [0x40, 0x00, 0xff], [0x40, 0x00, 0xff], [0x40, 0x00, 0xff], [0x40, 0x00, 0xff]],
        trace = []\<rparr> =
     (Inr (),
      \<lparr>script = [],
         trace = [Write 1 [0x40, 0xff, 0x12, 0] 2000, ShorterAnswer 4 64,
                  Write 1 ([0x40, 0xff, 0x13, 0xf5, 0x01] @ replicate 67 0x00) 2000,
                  Write 1 [0x40, 0xff, 0x12, 1] 2000, ShorterAnswer 4 64,
                  Write 1 ([0x40, 0xff, 0x13, 0xf6, 0x02] @ replicate 67 0x00) 2000,
                  Write 1 [0x40, 0xff, 0x12, 1] 2000, ShorterAnswer 4 64,
                  Write 1 [0x40, 0xff, 0x12, 2] 2000, ShorterAnswer 4 64,
                  Write 1 [0x40, 0xff, 0x12, 3] 2000, ShorterAnswer 4 64,
                  Write 1 [0x40, 0xff, 0x12, 4] 2000, ShorterAnswer 4 64,
                  Write 1 [0x40, 0xff, 0x12, 5] 2000, ShorterAnswer 4 64,
                  Write 1 [0x40, 0xff, 0x12, 6] 2000, ShorterAnswer 4 64,
                  Write 1 [0x40, 0xff, 0x12, 7] 2000, ShorterAnswer 4 64,
                  Write 1 [0x40, 0xff, 0x12, 8] 2000, ShorterAnswer 4 64,
                  Write 1 [0x40, 0xff, 0x12, 9] 2000, ShorterAnswer 4 64]\<rparr>)"
    using delete_all_sweep
      [of "[Refused [0x40, 0x00, 0x01] [0x40, 0xfe],
            Deleted [0x40, 0x00, 0x02] [0x40, 0x00] [0x40, 0x00, 0xff],
            Unenrolled [0x40, 0x00, 0xff], Unenrolled [0x40, 0x00, 0xff],
            Unenrolled [0x40, 0x00, 0xff], Unenrolled [0x40, 0x00, 0xff],
            Unenrolled [0x40, 0x00, 0xff], Unenrolled [0x40, 0x00, 0xff],
            Unenrolled [0x40, 0x00, 0xff], Unenrolled [0x40, 0x00, 0xff]]"
          "\<lparr>script = [[0x40, 0x00, 0x01], [0x40, 0xfe],
                 [0x40, 0x00, 0x02], [0x40, 0x00], [0x40, 0x00, 0xff],
                 [0x40, 0x00, 0xff], [0x40, 0x00, 0xff], [0x40, 0x00, 0xff], [0x40, 0x00, 0xff],
                 [0x40, 0x00, 0xff], [0x40, 0x00, 0xff], [0x40, 0x00, 0xff], [0x40, 0x00, 0xff]],
              trace = []\<rparr>" "[]", THEN conjunct1]
    by (simp add: is_record_def status_of_def last_byte_def record_of_def info_events_def
        delete_write_def delete_payload_def range10_def)
  have b: "delete_all
     \<lparr>script = [[0x40, 0x00, 0xff], [0x40, 0x00, 0x01], [0x40, 0xfe], [0x40, 0xfd],
                 [0x40, 0x00, 0xff]],
        trace = []\<rparr> =
     (Inl (IOError ''Error: Finger not enrolled''),
      \<lparr>script = [[0x40, 0x00, 0xff]],
         trace = [Write 1 [0x40, 0xff, 0x12, 0] 2000, ShorterAnswer 4 64,
                  Write 1 [0x40, 0xff, 0x12, 1] 2000, ShorterAnswer 4 64,
                  Write 1 ([0x40, 0xff, 0x13, 0xf6, 0x01] @ replicate 67 0x00) 2000,
                  Write 1 [0x40, 0xff, 0x12, 2] 2000, ShorterAnswer 4 64]\<rparr>)"
    using delete_all_sweep
      [of "[Unenrolled [0x40, 0x00, 0xff], Refused [0x40, 0x00, 0x01] [0x40, 0xfe]]"
          "\<lparr>script = [[0x40, 0x00, 0xff], [0x40, 0x00, 0x01], [0x40, 0xfe], [0x40, 0xfd],
                 [0x40, 0x00, 0xff]],
              trace = []\<rparr>"
          "[[0x40, 0xfd], [0x40, 0x00, 0xff]]" "0x40" "0xfd" "[[0x40, 0x00, 0xff]]",
       THEN conjunct2, THEN conjunct1]
    by (simp add: is_record_def status_of_def last_byte_def record_of_def info_events_def
        delete_write_def delete_payload_def range10_def get_error_fd format_opt_def)
  from a b show ?thesis
    by (rule conjI)
qed

section \<open>Properties of the image pipeline\<close>

lemma pixel_range_bounds:
  "pixel_range img a b = (Min (insert a (set img)), Max (insert b (set img)))"
proof (induction img arbitrary: a b)
  case Nil
  show ?case
    by simp
next
  case (Cons v img)
  have "Min (insert (min a v) (set img)) = Min (insert a (insert v (set img)))"
    by (cases "set img = {}") (simp_all add: min.assoc)
  moreover have "Max (insert (max v b) (set img)) = Max (insert b (insert v (set img)))"
    by (cases "set img = {}") (simp_all add: max.assoc max.commute)
  ultimately show ?case
    by (simp add: Cons.IH)
qed

lemma pixel_range_frame:
  assumes "img \<noteq> []" and "\<forall>v\<in>set img. 0 \<le> v \<and> v \<le> 65535"
  shows "pixel_range img 65536 0 = (Min (set img), Max (set img))"
proof -
  have ne: "set img \<noteq> {}" and fin: "finite (set img)"
    using assms(1) by simp_all
  have lo: "Min (set img) \<le> 65535"
    using assms Min_in [OF fin ne] by auto
  have "Min (insert 65536 (set img)) = min 65536 (Min (set img))"
    by (rule Min_insert [OF fin ne])
  also have "\<dots> = Min (set img)"
    using lo by linarith
  finally have mn: "Min (insert 65536 (set img)) = Min (set img)" .
  have hi: "0 \<le> Max (set img)"
    using assms Max_in [OF fin ne] by auto
  have "Max (insert 0 (set img)) = max 0 (Max (set img))"
    by (rule Max_insert [OF fin ne])
  also have "\<dots> = Max (set img)"
    using hi by linarith
  finally have mx: "Max (insert 0 (set img)) = Max (set img)" .
  from mn mx show ?thesis
    by (simp only: pixel_range_bounds)
qed

lemma rescale_zero: "img \<noteq> [] \<Longrightarrow> rescale img minv 0 = Inl ZeroDivisionError"
  by (cases img) (simp_all add: int_truediv_def)

lemma rescale_positive:
  assumes "0 < diff" and "\<forall>v\<in>set img. minv \<le> v"
  shows "rescale img minv diff = Inr (map (\<lambda>v. putpixel_L ((v - minv) * 256 div diff)) img)"
  using assms by (induction img) (simp_all add: int_truediv_def)


lemma scaled_floor_aux:
  "(a::int) * 256 div d = \<lfloor>real_of_int a * 256 / real_of_int d\<rfloor>"
  by (metis floor_divide_of_int_eq of_int_mult of_int_numeral)

lemma to_8bit_frame:
  assumes "img \<noteq> []" and "\<forall>v\<in>set img. 0 \<le> v \<and> v \<le> 65535"
    and "Min (set img) < Max (set img)"
  shows "to_8bit img = Inr (map (pixel_8bit img) img)"
proof -
  have "\<forall>v\<in>set img. Min (set img) \<le> v"
    by simp
  with assms(3) have "rescale img (Min (set img)) (Max (set img) - Min (set img)) =
      Inr (map (\<lambda>v. putpixel_L ((v - Min (set img)) * 256 div (Max (set img) - Min (set img))))
             img)"
    by (intro rescale_positive) simp_all
  moreover have "to_8bit img = rescale img (Min (set img)) (Max (set img) - Min (set img))"
    by (simp add: to_8bit_def pixel_range_frame [OF assms(1,2)])
  moreover have "pixel_8bit img =
      (\<lambda>v. putpixel_L ((v - Min (set img)) * 256 div (Max (set img) - Min (set img))))"
    by (rule ext) (simp only: pixel_8bit_def scaled_def)
  ultimately show ?thesis
    by (simp only:)
qed

lemma to_8bit_uniform:
  assumes "img \<noteq> []" and "\<forall>v\<in>set img. 0 \<le> v \<and> v \<le> 65535"
    and "Min (set img) = Max (set img)"
  shows "to_8bit img = Inl ZeroDivisionError"
proof -
  have "to_8bit img = rescale img (Min (set img)) (Max (set img) - Min (set img))"
    by (simp add: to_8bit_def pixel_range_frame [OF assms(1,2)])
  with assms(1,3) show ?thesis
    by (simp add: rescale_zero)
qed

text \<open>
  The claim C7 says that the pixel is the rounded quotient. With the samples 0, 2 and 3 the
  sample 2 gives 170, where the rounded quotient 512 / 3 is 171.
\<close>

theorem to_8bit_round_counterexample:
  "to_8bit [0, 2, 3] = Inr [0, 170, 255]
   \<and> max 0 (min 255 (round ((2 - 0) * 256 / (3 - 0) :: real))) = (171::int)"
  by (simp add: to_8bit_def int_truediv_def putpixel_L_def round_def)

text \<open>
  C7, as the code has it. For a frame of 16-bit samples with \<open>min < max\<close>, the 8-bit
  output pixel of a sample \<open>v\<close> is the quotient \<open>(v - min) * 256 / (max - min)\<close> cut to
  its integer part, which is its floor and not the rounded quotient, clamped to 0..255.
  Every pixel, the one of a maximal sample included, lies in 0..255.
\<close>

theorem to_8bit_truncates:
  assumes "img \<noteq> []" and "\<forall>v\<in>set img. 0 \<le> v \<and> v \<le> 65535"
    and "Min (set img) < Max (set img)"
  shows "to_8bit img = Inr (map (pixel_8bit img) img)
       \<and> (\<forall>v\<in>set img.
             pixel_8bit img v =
               max 0 (min 255 \<lfloor>real_of_int (v - Min (set img)) * 256
                                / real_of_int (Max (set img) - Min (set img))\<rfloor>)
             \<and> 0 \<le> pixel_8bit img v \<and> pixel_8bit img v \<le> 255)"
proof (intro conjI ballI)
  show "to_8bit img = Inr (map (pixel_8bit img) img)"
    using assms by (rule to_8bit_frame)
next
  fix v
  have "scaled img v =
      \<lfloor>real_of_int (v - Min (set img)) * 256 / real_of_int (Max (set img) - Min (set img))\<rfloor>"
    unfolding scaled_def by (rule scaled_floor_aux)
  then show "pixel_8bit img v =
      max 0 (min 255 \<lfloor>real_of_int (v - Min (set img)) * 256
                       / real_of_int (Max (set img) - Min (set img))\<rfloor>)"
    by (simp only: pixel_8bit_def putpixel_L_def)
next
  fix v
  show "0 \<le> pixel_8bit img v"
    by (simp add: pixel_8bit_def putpixel_L_def)
next
  fix v
  show "pixel_8bit img v \<le> 255"
    by (simp add: pixel_8bit_def putpixel_L_def)
qed

theorem to_8bit_truncates_witness:
  "to_8bit [0, 500, 1000] = Inr [0, 128, 255] \<and> pixel_8bit [0, 500, 1000] 500 = 128
   \<and> pixel_8bit [0, 500, 1000] 1000 = 255"
proof -
  have "to_8bit [0, 500, 1000] = Inr (map (pixel_8bit [0, 500, 1000]) [0, 500, 1000])"
    using to_8bit_truncates [of "[0, 500, 1000]", THEN conjunct1] by simp
  then show ?thesis
    by (simp add: pixel_8bit_def scaled_def putpixel_L_def)
qed

lemma le16_length: "length (le16 bs) = length bs div 2"
  by (induction bs rule: le16.induct) simp_all

lemma le16_range: "v \<in> set (le16 bs) \<Longrightarrow> 0 \<le> v \<and> v \<le> 65535"
proof (induction bs rule: le16.induct)
  case (1 lo hi rest)
  have "uint lo < 2 ^ 8" and "uint hi < 2 ^ 8"
    using uint_bounded [of lo] uint_bounded [of hi] by simp_all
  then have "0 \<le> uint lo + 256 * uint hi \<and> uint lo + 256 * uint hi \<le> 65535"
    by simp
  with 1 show ?case
    by auto
qed simp_all

lemma frombuffer_frame:
  assumes "frombuffer_I16L width height buf = Inr img" and "0 < width" and "0 < height"
  shows "img \<noteq> [] \<and> (\<forall>v\<in>set img. 0 \<le> v \<and> v \<le> 65535)"
proof -
  from assms(1) have len: "2 * width * height \<le> length buf"
    and img: "img = take (width * height) (le16 buf)"
    by (simp_all add: frombuffer_I16L_def split: if_splits)
  from len have "width * height \<le> length (le16 buf)"
    by (simp add: le16_length)
  moreover from assms(2,3) have "0 < width * height"
    by simp
  ultimately have "img \<noteq> []"
    using img by auto
  moreover have "\<forall>v\<in>set img. 0 \<le> v \<and> v \<le> 65535"
    using img le16_range set_take_subset [of "width * height" "le16 buf"] by blast
  ultimately show ?thesis
    by simp
qed

lemma COMMANDS_sensor_size:
  "COMMANDS ''sensor_size'' =
     Some \<lparr>opcode = [0x00, 0x0c], out_len = 2, in_len = 4, ep_out = 1, ep_in = 3\<rparr>"
  by (simp add: COMMANDS_def mk_Command_def)

lemma capture_fails:
  assumes "script u = sz # buf # rest" and "3 \<le> length sz"
    and "frombuffer_I16L (nat (uint (sz ! 0) + 1)) (nat (uint (sz ! 2) + 1))
           (take (2 * nat (uint (sz ! 0) + 1) * nat (uint (sz ! 2) + 1)) buf) = Inr img"
    and "to_8bit img = Inl e"
  shows "capture u = (Inl e, \<lparr>script = rest, trace = trace u @ capture_events sz\<rparr>)"
proof -
  let ?u1 = "\<lparr>script = buf # rest,
              trace = trace u @ Write 1 [0x00, 0x0c] 2000
                # (if length sz < 4 then [ShorterAnswer 2 4] else [])\<rparr>"
  have c: "command u ''sensor_size'' [] 2000 = (Inr (take 4 sz), ?u1)"
    using assms(1) command_reply [OF COMMANDS_sensor_size, of u sz "buf # rest" "[]" 2000]
    by (simp add: size_warning_def short_warning_def)
  have g0: "getitem (take 4 sz) 0 = Inr (uint (sz ! 0))"
    using assms(2) by (auto simp add: getitem_def)
  have g2: "getitem (take 4 sz) 2 = Inr (uint (sz ! 2))"
    using assms(2) by (simp add: getitem_def)
  show ?thesis
    by (simp add: capture_def c g0 g2 Let_def bulkWrite_def bulkRead_def emit_def assms(3,4)
        capture_events_def)
qed


text \<open>
  The claim C6 says that a frame with \<open>max = min\<close> fails with an error of its own and
  without dividing by zero. On a sensor of one pixel the capture ends in the
  \<open>ZeroDivisionError\<close> of the division, which \<open>main\<close> answers like any other exception.
\<close>

theorem capture_one_pixel_counterexample:
  "main Capture \<lparr>script = [[0x00, 0x00, 0x00, 0x00], [0x34, 0x12]], trace = []\<rparr> =
     (Inl ZeroDivisionError,
      \<lparr>script = [],
         trace = [Write 1 [0x00, 0x0c] 2000, Write 1 [0x00, 0x09] 5000,
                  Write 1 [0x40, 0xff, 0x02] 0]\<rparr>)"
  by (simp add: main_def branch_def capture_def command_def COMMANDS_def mk_Command_def
      bulkRead_def bulkWrite_def emit_def getitem_def frombuffer_I16L_def to_8bit_def
      int_truediv_def Let_def)

text \<open>
  C6, as the code has it. When the captured frame has \<open>max = min\<close>, the conversion is not
  guarded: the division for the first pixel raises \<open>ZeroDivisionError\<close>, no image is
  saved, and \<open>main\<close> writes the \<open>abort\<close> opcode and raises the same error again. There
  is no error of the code's own for this case.
\<close>

theorem capture_uniform_frame:
  assumes "script u = sz # buf # rest" and "3 \<le> length sz"
    and "frombuffer_I16L (nat (uint (sz ! 0) + 1)) (nat (uint (sz ! 2) + 1))
           (take (2 * nat (uint (sz ! 0) + 1) * nat (uint (sz ! 2) + 1)) buf) = Inr img"
    and "Min (set img) = Max (set img)"
  shows "to_8bit img = Inl ZeroDivisionError
       \<and> capture u =
            (Inl ZeroDivisionError, \<lparr>script = rest, trace = trace u @ capture_events sz\<rparr>)
       \<and> main Capture u =
            (Inl ZeroDivisionError,
             \<lparr>script = rest,
                trace = trace u @ capture_events sz @ [Write 1 [0x40, 0xff, 0x02] 0]\<rparr>)"
proof -
  have "0 < nat (uint (sz ! 0) + 1)" and "0 < nat (uint (sz ! 2) + 1)"
    by simp_all
  with assms(3) have "img \<noteq> [] \<and> (\<forall>v\<in>set img. 0 \<le> v \<and> v \<le> 65535)"
    by (rule frombuffer_frame)
  with assms(4) have z: "to_8bit img = Inl ZeroDivisionError"
    by (intro to_8bit_uniform) simp_all
  have c: "capture u =
      (Inl ZeroDivisionError, \<lparr>script = rest, trace = trace u @ capture_events sz\<rparr>)"
    using assms(1,2,3) z by (rule capture_fails)
  have "main Capture u =
      (Inl ZeroDivisionError,
       \<lparr>script = rest,
          trace = trace u @ capture_events sz @ [Write 1 [0x40, 0xff, 0x02] 0]\<rparr>)"
    by (simp add: main_def branch_def c COMMANDS_abort bulkWrite_def emit_def)
  with z c show ?thesis
    by simp
qed

theorem capture_uniform_frame_witness:
  "capture \<lparr>script = [[0x01, 0x00, 0x00, 0x00], [0x34, 0x12, 0x34, 0x12], [0x07]],
             trace = []\<rparr> =
     (Inl ZeroDivisionError,
      \<lparr>script = [[0x07]], trace = [Write 1 [0x00, 0x0c] 2000, Write 1 [0x00, 0x09] 5000]\<rparr>)
   \<and> to_8bit [0x1234, 0x1234] = Inl ZeroDivisionError"
  using capture_uniform_frame
    [of "\<lparr>script = [[0x01, 0x00, 0x00, 0x00], [0x34, 0x12, 0x34, 0x12], [0x07]],
            trace = []\<rparr>"
        "[0x01, 0x00, 0x00, 0x00]" "[0x34, 0x12, 0x34, 0x12]" "[[0x07]]" "[0x1234, 0x1234]"]
  by (simp add: frombuffer_I16L_def capture_events_def)

end
